theory Spec2Isabelle
  imports Complex_Main
begin

section \<open>Numbers\<close>

text \<open>
  The TypeScript sources compute with the type \<open>number\<close>. The model uses \<^typ>\<open>real\<close>:
  \<open>Math.pow(b, e)\<close> is \<open>b powr e\<close> (for a positive base), \<open>Math.log10\<close> is \<open>log 10\<close>,
  \<open>Math.abs\<close> is \<open>\<bar>_\<bar>\<close>. The model agrees with the source on finite values; a division
  is meaningful only for a non-zero divisor and \<open>log 10\<close> only for a positive argument, and
  the theorems below say so where it matters.
\<close>

section \<open>Camera\<close>

text \<open>
  Modelled from the spec: the class \<open>Camera\<close> (\<open>app/common/camera\<close>) is imported by
  \<open>behavior.ts\<close> but is not among the sources. The data model of the spec gives the pan
  offset \<open>cameraX, cameraY\<close>, the zoom factor \<open>scale\<close> and the viewport size
  \<open>visualWidth, visualHeight\<close>; the visible world rectangle is derived as
  \<open>(cameraX / scale, cameraY / scale, visualWidth / scale, visualHeight / scale)\<close>.
\<close>

record camera =
  cameraX :: real
  cameraY :: real
  scale :: real
  visualWidth :: real
  visualHeight :: real

text \<open>Modelled from the spec: the derived field \<open>worldX\<close> of the absent class \<open>Camera\<close>.\<close>

definition worldX :: "camera \<Rightarrow> real" where
  "worldX c = cameraX c / scale c"

text \<open>Modelled from the spec: the derived field \<open>worldY\<close> of the absent class \<open>Camera\<close>.\<close>

definition worldY :: "camera \<Rightarrow> real" where
  "worldY c = cameraY c / scale c"

text \<open>Modelled from the spec: the derived field \<open>projWidth\<close> of the absent class \<open>Camera\<close>.\<close>

definition projWidth :: "camera \<Rightarrow> real" where
  "projWidth c = visualWidth c / scale c"

text \<open>Modelled from the spec: the derived field \<open>projHeight\<close> of the absent class \<open>Camera\<close>.\<close>

definition projHeight :: "camera \<Rightarrow> real" where
  "projHeight c = visualHeight c / scale c"

text \<open>
  Modelled from the spec: \<open>castRayX\<close> of the absent class \<open>Camera\<close>, the world coordinate
  under a screen coordinate for the current transform. The left edge of the viewport shows
  \<open>worldX\<close> and a screen distance \<open>sx\<close> spans \<open>sx / scale\<close> world units.
\<close>

definition castRayX :: "camera \<Rightarrow> real \<Rightarrow> real" where
  "castRayX c sx = worldX c + sx / scale c"

text \<open>Modelled from the spec: \<open>castRayY\<close> of the absent class \<open>Camera\<close>.\<close>

definition castRayY :: "camera \<Rightarrow> real \<Rightarrow> real" where
  "castRayY c sy = worldY c + sy / scale c"

text \<open>
  Modelled from the spec: the world-to-screen projection of the absent class \<open>Camera\<close>,
  the inverse of \<open>castRayX\<close>.
\<close>

definition screenX :: "camera \<Rightarrow> real \<Rightarrow> real" where
  "screenX c wx = (wx - worldX c) * scale c"

text \<open>Modelled from the spec: the vertical world-to-screen projection.\<close>

definition screenY :: "camera \<Rightarrow> real \<Rightarrow> real" where
  "screenY c wy = (wy - worldY c) * scale c"

text \<open>
  Modelled from the spec: \<open>moveTo(x, y)\<close> of the absent class \<open>Camera\<close>, the absolute pan.
\<close>

definition moveTo :: "real \<Rightarrow> real \<Rightarrow> camera \<Rightarrow> camera" where
  "moveTo x y c = c\<lparr>cameraX := x, cameraY := y\<rparr>"

text \<open>
  Modelled from the spec: \<open>zoomToAbout(targetScale, anchorWorldX, anchorWorldY)\<close> of the
  absent class \<open>Camera\<close>. The spec asks for the new scale and for the new pan that keeps
  the screen projection of the anchor: with \<open>sx\<close> the anchor's screen coordinate before the
  call, the new pan solves \<open>(ax - cameraX' / s) * s = sx\<close>.
\<close>

definition zoomToAbout :: "real \<Rightarrow> real \<Rightarrow> real \<Rightarrow> camera \<Rightarrow> camera" where
  "zoomToAbout s ax ay c =
     (let sx = screenX c ax;
          sy = screenY c ay
      in c\<lparr>scale := s, cameraX := ax * s - sx, cameraY := ay * s - sy\<rparr>)"

section \<open>The diagram, its limits and the momentum estimator\<close>

text \<open>
  The class \<open>DiagramImpl\<close> (\<open>./diagram\<close>) is not among the sources; the states read its
  camera and the switches below. The camera is the one object that the diagram and every
  state share (\<open>this.camera = diagram.camera\<close>); the model keeps it as a field of the machine.
\<close>

record diagram =
  respectLimits :: bool
  rubberBanding :: bool
  useKinetics :: bool
  animatedNavigation :: bool

text \<open>
  \<open>BaseState.limits\<close>: the fields \<open>left, top, right, bottom\<close>, read in the source through a
  local variable named \<open>limit\<close>. The only method that writes them, \<open>adjustLimit\<close>, is private
  and never called, so every state holds the initial rectangle.
\<close>

record limits =
  limit_left :: real
  limit_top :: real
  limit_right :: real
  limit_bottom :: real

definition limits :: limits where
  "limits = \<lparr>limit_left = - 800, limit_top = - 800, limit_right = 2800, limit_bottom = 2800\<rparr>"

text \<open>
  The class \<open>Kinetics\<close> (\<open>app/common/kinetics\<close>) is not among the sources. Its state is a
  type parameter \<open>'k\<close> and the members that \<open>behavior.ts\<close> uses are taken as parameters:
  the constructor, \<open>update\<close>, \<open>reset\<close>, \<open>speed\<close>, \<open>angle\<close> and \<open>hasEnoughMomentum\<close>.
\<close>

record 'k kinetics_ops =
  k_new :: 'k
  k_update :: "real \<Rightarrow> real \<Rightarrow> 'k \<Rightarrow> 'k"
  k_reset :: "'k \<Rightarrow> 'k"
  k_speed :: "'k \<Rightarrow> real"
  k_angle :: "'k \<Rightarrow> real"
  k_hasEnoughMomentum :: "'k \<Rightarrow> bool"

text \<open>
  The class \<open>Animation\<close> (\<open>app/common/animations\<close>) is not among the sources. An animation
  is represented by the factory call that made it, without the camera argument (always
  the shared camera). \<open>play\<close>, \<open>stop\<close> and the \<open>onFinished\<close> callback act on the frame clock
  and leave the fields of the states unchanged within one event.
\<close>

datatype animation =
    CenterOnWorld real real real
  | ThrowCamera real real real

section \<open>The state machine: data\<close>

datatype error = TypeError | Error string

datatype state_id = Idle | Panning | Animating

text \<open>The field \<open>name\<close> that the constructor of \<open>DiagramBehavior\<close> gives each state.\<close>

fun name :: "state_id \<Rightarrow> string" where
  "name Idle = ''idle''"
| "name Panning = ''panning''"
| "name Animating = ''animating''"

text \<open>
  The parameter object of \<open>goto\<close> and \<open>enterState\<close> has the type \<open>any\<close>; the states read
  the properties \<open>x\<close>, \<open>y\<close>, \<open>forced\<close> and \<open>interpolator\<close>, each of which may be missing.
\<close>

record params =
  p_x :: "real option"
  p_y :: "real option"
  forced :: "bool option"
  interpolator :: "animation option"

text \<open>
  The fields of \<open>Panning\<close>. \<open>kinetics\<close> is undefined until the state is first entered.
  The four violation flags \<open>left, right, bottom, top\<close> are read in the source through
  \<open>v = this\<close>.
\<close>

record 'k panning =
  anchorX :: real
  anchorY :: real
  pressedX :: real
  pressedY :: real
  kinetics :: "'k option"
  v_left :: bool
  v_right :: bool
  v_bottom :: bool
  v_top :: bool

record animating =
  forceAnimation :: bool
  animation :: "animation option"

text \<open>
  The fields of \<open>DiagramBehavior\<close> together with the fields of its three state objects.
  \<open>lastSt\<close> is the private field \<open>last\<close>. \<open>lastState_prop\<close> is the own property
  \<open>lastState\<close> of the object: \<open>None\<close> while only the method of the class exists, \<open>Some s\<close>
  once a state object has been assigned over it.
\<close>

record 'k machine =
  current :: "state_id option"
  lastSt :: "state_id option"
  lastState_prop :: "state_id option"
  camera :: camera
  diagram :: diagram
  panning :: "'k panning"
  animating :: animating

text \<open>
  \<open>states\<close> and \<open>lookup\<close> as the constructor builds them (\<open>lookup[it.name] = it\<close> on an
  object without prototype); nothing writes them afterwards.
\<close>

definition states :: "state_id list" where
  "states = [Idle, Panning, Animating]"

definition lookup :: "string \<Rightarrow> state_id option" where
  "lookup = fold (\<lambda>it l. l(name it \<mapsto> it)) states Map.empty"

definition supportedStates :: "string list" where
  "supportedStates = [''idle'', ''panning'', ''animating'']"

definition currentState :: "'k machine \<Rightarrow> error + string" where
  "currentState m = (case current m of None \<Rightarrow> Inl TypeError | Some s \<Rightarrow> Inr (name s))"

text \<open>
  \<open>lastState()\<close>: the call fails when the own property \<open>lastState\<close> holds a state object
  (not a function), and the method fails when \<open>last\<close> is undefined.
\<close>

definition lastState :: "'k machine \<Rightarrow> error + string" where
  "lastState m =
     (case lastState_prop m of
        Some obj \<Rightarrow> Inl TypeError
      | None \<Rightarrow> (case lastSt m of None \<Rightarrow> Inl TypeError | Some s \<Rightarrow> Inr (name s)))"

section \<open>The state machine: entering and leaving states\<close>

definition Panning_handleMouseDown :: "real \<Rightarrow> real \<Rightarrow> 'k machine \<Rightarrow> 'k machine" where
  "Panning_handleMouseDown x y m =
     m\<lparr>panning := (panning m)\<lparr>pressedX := x, pressedY := y,
          anchorX := cameraX (camera m), anchorY := cameraY (camera m)\<rparr>\<rparr>"

definition resetViolations :: "'k machine \<Rightarrow> 'k machine" where
  "resetViolations m =
     m\<lparr>panning := (panning m)\<lparr>v_left := False, v_right := False,
          v_bottom := False, v_top := False\<rparr>\<rparr>"

text \<open>
  \<open>leaveState\<close> of each state: the default of \<open>BaseState\<close> for \<open>Idle\<close>; \<open>Panning\<close> resets
  the momentum estimator, the anchors and the violations; \<open>Animating\<close> stops and drops its
  animation.
\<close>

fun leaveState :: "'k kinetics_ops \<Rightarrow> state_id \<Rightarrow> 'k machine \<Rightarrow> error + 'k machine" where
  "leaveState K Idle m = Inr m"
| "leaveState K Panning m =
     (case kinetics (panning m) of
        None \<Rightarrow> Inl TypeError
      | Some k \<Rightarrow>
          Inr (resetViolations
            (m\<lparr>panning := (panning m)\<lparr>kinetics := Some (k_reset K k),
                 anchorX := 0, anchorY := 0, pressedX := 0, pressedY := 0\<rparr>\<rparr>)))"
| "leaveState K Animating m =
     (case animation (animating m) of
        Some a \<Rightarrow> Inr (m\<lparr>animating := (animating m)\<lparr>animation := None\<rparr>\<rparr>)
      | None \<Rightarrow> Inr m)"

text \<open>
  \<open>DiagramBehavior.goto\<close>, \<open>enterState\<close> of each state and \<open>BaseState.becomeIdle\<close>.
  \<open>Animating.enterState\<close> without parameters calls \<open>becomeIdle\<close>, which calls \<open>goto\<close> again.
  The private field \<open>debug\<close> is false and nothing sets it, so nothing is logged.
  \<open>x || 0\<close> and \<open>forced || false\<close> replace a missing property by the default.
\<close>

function goto :: "'k kinetics_ops \<Rightarrow> string \<Rightarrow> params option \<Rightarrow> 'k machine \<Rightarrow> error + 'k machine"
  and enterState :: "'k kinetics_ops \<Rightarrow> state_id \<Rightarrow> params option \<Rightarrow> 'k machine \<Rightarrow> error + 'k machine"
  and becomeIdle :: "'k kinetics_ops \<Rightarrow> 'k machine \<Rightarrow> error + 'k machine"
where
  "goto K state params m =
     (case lookup state of
        Some newState \<Rightarrow>
          (case (case current m of Some c \<Rightarrow> leaveState K c m | None \<Rightarrow> Inr m) of
             Inl e \<Rightarrow> Inl e
           | Inr m1 \<Rightarrow>
               enterState K newState params (m1\<lparr>lastSt := current m1, current := Some newState\<rparr>))
      | None \<Rightarrow> Inr m)"
| "enterState K Idle params m = Inr m"
| "enterState K Panning params m =
     (let m1 = m\<lparr>panning := (panning m)\<lparr>kinetics :=
                 Some (case kinetics (panning m) of Some k \<Rightarrow> k | None \<Rightarrow> k_new K)\<rparr>\<rparr>
      in case params of
           Some p \<Rightarrow>
             Inr (Panning_handleMouseDown
                   (case p_x p of Some x \<Rightarrow> x | None \<Rightarrow> 0)
                   (case p_y p of Some y \<Rightarrow> y | None \<Rightarrow> 0) m1)
         | None \<Rightarrow> Inr m1)"
| "enterState K Animating params m =
     (case params of
        Some p \<Rightarrow>
          (case interpolator p of
             Some a \<Rightarrow>
               Inr (m\<lparr>animating := \<lparr>forceAnimation = (case forced p of Some b \<Rightarrow> b | None \<Rightarrow> False),
                                     animation = Some a\<rparr>\<rparr>)
           | None \<Rightarrow> Inl TypeError)
      | None \<Rightarrow> becomeIdle K m)"
| "becomeIdle K m = goto K ''idle'' None m"
  by pat_completeness auto

lemma lookup_idle: "lookup ''idle'' = Some Idle"
  by (simp add: lookup_def states_def)

lemma lookup_panning: "lookup ''panning'' = Some Panning"
  by (simp add: lookup_def states_def)

lemma lookup_animating: "lookup ''animating'' = Some Animating"
  by (simp add: lookup_def states_def)

termination goto
  apply (relation "measure (\<lambda>a. case a of
       Inl (K, state, params, m) \<Rightarrow>
         (if lookup state = Some Animating \<and> params = None then 4 else 1)
     | Inr (Inl (K, st, params, m)) \<Rightarrow> (if st = Animating \<and> params = None then 3 else 0)
     | Inr (Inr (K, m)) \<Rightarrow> 2)")
   apply (auto simp add: lookup_idle)
  done

declare goto.simps [simp del]

lemma goto_idle_current:
  assumes "goto K ''idle'' params m = Inr m1"
  shows "current m1 = Some Idle"
  using assms
  by (auto simp add: goto.simps lookup_idle split: sum.splits)

lemma goto_panning_current:
  assumes "goto K ''panning'' params m = Inr m1"
  shows "current m1 = Some Panning"
  using assms
  by (auto simp add: goto.simps lookup_panning Let_def Panning_handleMouseDown_def
      split: sum.splits option.splits)

section \<open>The state machine: events\<close>

subsection \<open>Idle\<close>

definition Idle_handleMouseDown :: "'k kinetics_ops \<Rightarrow> real \<Rightarrow> real \<Rightarrow> 'k machine \<Rightarrow> error + 'k machine" where
  "Idle_handleMouseDown K x y m =
     goto K ''panning''
       (Some \<lparr>p_x = Some x, p_y = Some y, forced = None, interpolator = None\<rparr>) m"

definition maxZoom :: real where
  "maxZoom = 10"

definition Idle_handleZoom :: "real \<Rightarrow> real \<Rightarrow> real \<Rightarrow> 'k machine \<Rightarrow> 'k machine" where
  "Idle_handleZoom x y units m =
     (let zoom = scale (camera m);
          factor = 1.002 powr units;
          target = factor * zoom;
          target1 =
            (if respectLimits (diagram m) then
               (if target \<ge> maxZoom then maxZoom
                else
                  (let w = visualWidth (camera m);
                       h = visualHeight (camera m);
                       l = limit_right limits - limit_left limits;
                       d = limit_bottom limits - limit_top limits;
                       limit = (if w > h then w / l else h / d)
                   in if target \<le> limit then limit else target))
             else target)
      in m\<lparr>camera := zoomToAbout target1
                         (castRayX (camera m) x) (castRayY (camera m) y) (camera m)\<rparr>)"

subsection \<open>Panning\<close>

definition calcDisplacement :: "bool \<Rightarrow> real \<Rightarrow> real \<Rightarrow> 'k machine \<Rightarrow> real" where
  "calcDisplacement horizontal min' max' m =
     (let v = panning m; limit = limits;
          lower = (if horizontal then v_left v else v_top v);
          upper = (if horizontal then v_top v else v_bottom v);
          left = (if horizontal then limit_left limit else limit_top limit);
          right = (if horizontal then limit_right limit else limit_bottom limit)
      in if lower then min' - left else if upper then max' - right else 0)"

definition isBanding :: "'k machine \<Rightarrow> bool" where
  "isBanding m =
     (let v = panning m
      in rubberBanding (diagram m) \<and> (v_left v \<or> v_right v \<or> v_bottom v \<or> v_top v))"

text \<open>
  \<open>useKinetics && kinetics.hasEnoughMomentum()\<close>: the second operand is evaluated, and fails
  on an undefined estimator, only when the first holds.
\<close>

definition isKinetic :: "'k kinetics_ops \<Rightarrow> 'k machine \<Rightarrow> error + bool" where
  "isKinetic K m =
     (if useKinetics (diagram m) then
        (case kinetics (panning m) of
           Some k \<Rightarrow> Inr (k_hasEnoughMomentum K k)
         | None \<Rightarrow> Inl TypeError)
      else Inr False)"

text \<open>\<open>ratio || 1\<close> replaces a ratio of zero by one.\<close>

definition damp :: "real \<Rightarrow> real \<Rightarrow> real" where
  "damp actual limit =
     (let ratio = \<bar>actual / limit\<bar>
      in 1 + log 10 (if ratio = 0 then 1 else ratio))"

definition updateBanding :: "bool \<Rightarrow> bool \<Rightarrow> bool \<Rightarrow> 'k machine \<Rightarrow> 'k machine" where
  "updateBanding horizontal lower v m =
     (if horizontal then
        (if lower then m\<lparr>panning := (panning m)\<lparr>v_left := v\<rparr>\<rparr>
         else m\<lparr>panning := (panning m)\<lparr>v_right := v\<rparr>\<rparr>)
      else
        (if lower then m\<lparr>panning := (panning m)\<lparr>v_top := v\<rparr>\<rparr>
         else m\<lparr>panning := (panning m)\<lparr>v_bottom := v\<rparr>\<rparr>))"

text \<open>\<open>handleLimits\<close> returns the offset to apply and updates the violation flags.\<close>

definition handleLimits :: "bool \<Rightarrow> real \<Rightarrow> 'k machine \<Rightarrow> real \<times> 'k machine" where
  "handleLimits horizontal drag m =
     (let cam = camera m; limit = limits;
          min' = (if horizontal then worldX cam else worldY cam);
          wid = (if horizontal then projWidth cam else projHeight cam);
          lower = (if horizontal then limit_left limit else limit_top limit);
          higher = (if horizontal then limit_right limit else limit_bottom limit);
          band = rubberBanding (diagram m);
          scale' = scale cam;
          max' = min' + wid
      in if min' \<le> lower then
           (if band then
              (let m1 = updateBanding horizontal True True m;
                   factor = damp (drag / scale') lower
               in (factor * lower * scale', m1))
            else (lower + 1, m))
         else
           (let m1 = updateBanding horizontal True False m
            in if max' \<ge> higher then
                 (if band then
                    (let m2 = updateBanding horizontal False True m1;
                         factor = damp (drag / scale' + wid) higher
                     in ((factor * higher - wid) * scale', m2))
                  else (higher - 1, m1))
               else
                 (let m2 = updateBanding horizontal False False m1
                  in (drag, m2))))"

definition Panning_handleMouseMove :: "'k kinetics_ops \<Rightarrow> real \<Rightarrow> real \<Rightarrow> 'k machine \<Rightarrow> error + 'k machine" where
  "Panning_handleMouseMove K x y m =
     (let dragX = pressedX (panning m) - anchorX (panning m) - x;
          dragY = pressedY (panning m) - anchorY (panning m) - y;
          (limitX, m1) = (if respectLimits (diagram m) then handleLimits True dragX m
                          else (dragX, m));
          (limitY, m2) = (if respectLimits (diagram m) then handleLimits False dragY m1
                          else (dragY, m1))
      in case (if useKinetics (diagram m2) then
                 (case kinetics (panning m2) of
                    Some k \<Rightarrow>
                      Inr (m2\<lparr>panning := (panning m2)\<lparr>kinetics := Some (k_update K dragX dragY k)\<rparr>\<rparr>)
                  | None \<Rightarrow> Inl TypeError)
               else Inr m2) of
           Inl e \<Rightarrow> Inl e
         | Inr m3 \<Rightarrow> Inr (m3\<lparr>camera := moveTo limitX limitY (camera m3)\<rparr>))"

definition Panning_handleMouseUp :: "'k kinetics_ops \<Rightarrow> real \<Rightarrow> real \<Rightarrow> 'k machine \<Rightarrow> error + 'k machine" where
  "Panning_handleMouseUp K x y m =
     (if isBanding m then
        (if animatedNavigation (diagram m) then
           (let ca = camera m;
                wX = worldX ca; wW = wX + projWidth ca;
                wY = worldY ca; wH = wY + projHeight ca;
                dx = calcDisplacement True wX wW m;
                dy = calcDisplacement False wY wH m
            in goto K ''animating''
                 (Some \<lparr>p_x = None, p_y = None, forced = Some False,
                        interpolator = Some (CenterOnWorld
                          (wX + projWidth ca / 2 - dx)
                          (wY + projHeight ca / 2 - dy) 300)\<rparr>) m)
         else becomeIdle K m)
      else
        (case isKinetic K m of
           Inl e \<Rightarrow> Inl e
         | Inr True \<Rightarrow>
             (case kinetics (panning m) of
                Some k \<Rightarrow>
                  goto K ''animating''
                    (Some \<lparr>p_x = None, p_y = None, forced = Some False,
                           interpolator = Some (ThrowCamera (k_speed K k) (k_angle K k) 333)\<rparr>) m
              | None \<Rightarrow> Inl TypeError)
         | Inr False \<Rightarrow> becomeIdle K m))"

subsection \<open>Animating and the dispatch of \<open>DiagramBehavior\<close>\<close>

text \<open>
  \<open>DiagramBehavior\<close> hands every event to the current state, which fails when there is
  none. \<open>Panning\<close> inherits the empty \<open>handleZoom\<close>, \<open>handleStop\<close> and \<open>handleAbort\<close> of
  \<open>BaseState\<close>, \<open>Idle\<close> the empty \<open>handleMouseMove\<close>, \<open>handleMouseUp\<close>, \<open>handleStop\<close> and
  \<open>handleAbort\<close>, \<open>Animating\<close> the empty \<open>handleMouseMove\<close> and \<open>handleMouseUp\<close>.
  \<open>Animating.handleZoom\<close> and \<open>Animating.handleMouseDown\<close> call back into the dispatcher
  after their transition.
\<close>

function handleZoom :: "'k kinetics_ops \<Rightarrow> real \<Rightarrow> real \<Rightarrow> real \<Rightarrow> 'k machine \<Rightarrow> error + 'k machine"
  and Animating_handleZoom :: "'k kinetics_ops \<Rightarrow> real \<Rightarrow> real \<Rightarrow> real \<Rightarrow> 'k machine \<Rightarrow> error + 'k machine"
where
  "handleZoom K x y f m =
     (case current m of
        None \<Rightarrow> Inl TypeError
      | Some Idle \<Rightarrow> Inr (Idle_handleZoom x y f m)
      | Some Panning \<Rightarrow> Inr m
      | Some Animating \<Rightarrow> Animating_handleZoom K x y f m)"
| "Animating_handleZoom K x y f m =
     (if \<not> forceAnimation (animating m) then
        (case becomeIdle K m of
           Inl e \<Rightarrow> Inl e
         | Inr m1 \<Rightarrow> handleZoom K x y f m1)
      else Inr m)"
  by pat_completeness auto
termination
  apply (relation "measure (\<lambda>a. case a of
       Inl (K, x, y, f, m) \<Rightarrow> (if current m = Some Idle then 0 else 2)
     | Inr (K, x, y, f, m) \<Rightarrow> 1)")
    apply (auto dest: goto_idle_current)
  done

declare handleZoom.simps [simp del] Animating_handleZoom.simps [simp del]

function handleMouseDown :: "'k kinetics_ops \<Rightarrow> real \<Rightarrow> real \<Rightarrow> 'k machine \<Rightarrow> error + 'k machine"
  and Animating_handleMouseDown :: "'k kinetics_ops \<Rightarrow> real \<Rightarrow> real \<Rightarrow> 'k machine \<Rightarrow> error + 'k machine"
where
  "handleMouseDown K x y m =
     (case current m of
        None \<Rightarrow> Inl TypeError
      | Some Idle \<Rightarrow> Idle_handleMouseDown K x y m
      | Some Panning \<Rightarrow> Inr (Panning_handleMouseDown x y m)
      | Some Animating \<Rightarrow> Animating_handleMouseDown K x y m)"
| "Animating_handleMouseDown K x y m =
     (if \<not> forceAnimation (animating m) then
        (case goto K ''panning'' None m of
           Inl e \<Rightarrow> Inl e
         | Inr m1 \<Rightarrow> handleMouseDown K x y m1)
      else Inr m)"
  by pat_completeness auto
termination
  apply (relation "measure (\<lambda>a. case a of
       Inl (K, x, y, m) \<Rightarrow> (if current m = Some Panning then 0 else 2)
     | Inr (K, x, y, m) \<Rightarrow> 1)")
    apply (auto dest: goto_panning_current)
  done

declare handleMouseDown.simps [simp del] Animating_handleMouseDown.simps [simp del]

definition Animating_handleStop :: "'k kinetics_ops \<Rightarrow> 'k machine \<Rightarrow> error + 'k machine" where
  "Animating_handleStop K m =
     (if \<not> forceAnimation (animating m) then becomeIdle K m else Inr m)"

definition Animating_handleAbort :: "'k kinetics_ops \<Rightarrow> 'k machine \<Rightarrow> error + 'k machine" where
  "Animating_handleAbort K m = becomeIdle K m"

definition handleStop :: "'k kinetics_ops \<Rightarrow> 'k machine \<Rightarrow> error + 'k machine" where
  "handleStop K m =
     (case current m of
        None \<Rightarrow> Inl TypeError
      | Some Idle \<Rightarrow> Inr m
      | Some Panning \<Rightarrow> Inr m
      | Some Animating \<Rightarrow> Animating_handleStop K m)"

definition handleAbort :: "'k kinetics_ops \<Rightarrow> 'k machine \<Rightarrow> error + 'k machine" where
  "handleAbort K m =
     (case current m of
        None \<Rightarrow> Inl TypeError
      | Some Idle \<Rightarrow> Inr m
      | Some Panning \<Rightarrow> Inr m
      | Some Animating \<Rightarrow> Animating_handleAbort K m)"

definition handleMouseMove :: "'k kinetics_ops \<Rightarrow> real \<Rightarrow> real \<Rightarrow> 'k machine \<Rightarrow> error + 'k machine" where
  "handleMouseMove K x y m =
     (case current m of
        None \<Rightarrow> Inl TypeError
      | Some Idle \<Rightarrow> Inr m
      | Some Panning \<Rightarrow> Panning_handleMouseMove K x y m
      | Some Animating \<Rightarrow> Inr m)"

definition handleMouseUp :: "'k kinetics_ops \<Rightarrow> real \<Rightarrow> real \<Rightarrow> 'k machine \<Rightarrow> error + 'k machine" where
  "handleMouseUp K x y m =
     (case current m of
        None \<Rightarrow> Inl TypeError
      | Some Idle \<Rightarrow> Inr m
      | Some Panning \<Rightarrow> Panning_handleMouseUp K x y m
      | Some Animating \<Rightarrow> Inr m)"

subsection \<open>The constructor\<close>

text \<open>
  The constructor of \<open>DiagramBehavior\<close>: the fields of the new state objects, the first
  transition \<open>goto('idle', null)\<close> from no current state, and the assignment
  \<open>this.lastState = this.lookup['idle']\<close>, which writes the own property \<open>lastState\<close>
  (not the field \<open>last\<close>).
\<close>

definition constructor :: "'k kinetics_ops \<Rightarrow> diagram \<Rightarrow> camera \<Rightarrow> error + 'k machine" where
  "constructor K d cam =
     (let m0 = \<lparr>current = None, lastSt = None, lastState_prop = None,
                camera = cam, diagram = d,
                panning = \<lparr>anchorX = 0, anchorY = 0, pressedX = 0, pressedY = 0,
                           kinetics = None, v_left = False, v_right = False,
                           v_bottom = False, v_top = False\<rparr>,
                animating = \<lparr>forceAnimation = False, animation = None\<rparr>\<rparr>
      in case goto K ''idle'' None m0 of
           Inl e \<Rightarrow> Inl e
         | Inr m1 \<Rightarrow> Inr (m1\<lparr>lastState_prop := lookup ''idle''\<rparr>))"

subsection \<open>Events in sequence\<close>

text \<open>The events of the interface \<open>DiagramEvents\<close> that the three states implement.\<close>

datatype event =
    MouseDown real real
  | MouseMove real real
  | MouseUp real real
  | Zoom real real real
  | Abort
  | Stop

fun handle :: "'k kinetics_ops \<Rightarrow> event \<Rightarrow> 'k machine \<Rightarrow> error + 'k machine" where
  "handle K (MouseDown x y) m = handleMouseDown K x y m"
| "handle K (MouseMove x y) m = handleMouseMove K x y m"
| "handle K (MouseUp x y) m = handleMouseUp K x y m"
| "handle K (Zoom x y f) m = handleZoom K x y f m"
| "handle K Abort m = handleAbort K m"
| "handle K Stop m = handleStop K m"

text \<open>A sequence of events stops at the first one that throws.\<close>

fun run :: "'k kinetics_ops \<Rightarrow> event list \<Rightarrow> 'k machine \<Rightarrow> error + 'k machine" where
  "run K [] m = Inr m"
| "run K (e # es) m = (case handle K e m of Inl err \<Rightarrow> Inl err | Inr m1 \<Rightarrow> run K es m1)"

text \<open>Pointer-down, wheel and stop: the events that a forced animation does not react to.\<close>

fun down_wheel_or_stop :: "event \<Rightarrow> bool" where
  "down_wheel_or_stop (MouseDown x y) = True"
| "down_wheel_or_stop (Zoom x y f) = True"
| "down_wheel_or_stop Stop = True"
| "down_wheel_or_stop e = False"

section \<open>Attaching a rendered node to its group\<close>

text \<open>
  \<open>ShapeRenderer.attach\<close> of \<open>render.ts\<close>. A display object of the rendering library is
  a node with its list of children; \<open>addChild\<close> of the library appends a child. Of a vertex
  of the view model (\<open>app/common/viewmodel\<close>, not among the sources) only the field
  \<open>visual\<close> is read; it is absent until the vertex has been rendered. Reading
  \<open>root.children[1]\<close> beyond the end of the array gives \<open>undefined\<close>, which the next check
  rejects.
\<close>

datatype display = Display (ident: nat) (children: "display list")

definition addChild :: "display \<Rightarrow> display \<Rightarrow> display" where
  "addChild container child = Display (ident container) (children container @ [child])"

record vertex =
  visual :: "display option"

definition attach :: "vertex \<Rightarrow> vertex \<Rightarrow> error + vertex" where
  "attach node group' =
     (case visual node of
        None \<Rightarrow> Inl (Error ''Node has no rendered visual'')
      | Some child \<Rightarrow>
          (case visual group' of
             None \<Rightarrow> Inl (Error ''Could not find renderer visual of the given group'')
           | Some root' \<Rightarrow>
               (if 1 < length (children root') then
                  (let content' = children root' ! 1
                   in Inr (group'\<lparr>visual :=
                        Some (Display (ident root') ((children root')[1 := addChild content' child]))\<rparr>))
                else Inl (Error ''Could not find low level content container''))))"

section \<open>Concrete inputs\<close>

text \<open>
  Values at which the definitions are evaluated below: the camera of the spec's scenario
  (scale 1, no pan, viewport 800 by 600), a diagram with every switch on, the machine
  that the constructor returns, and a momentum estimator that keeps the samples of the
  drag and reports momentum when the last sample is longer than one unit. The general
  theorems hold for every estimator.
\<close>

definition scenario_camera :: camera where
  "scenario_camera = \<lparr>cameraX = 0, cameraY = 0, scale = 1, visualWidth = 800, visualHeight = 600\<rparr>"

definition all_on :: diagram where
  "all_on = \<lparr>respectLimits = True, rubberBanding = True, useKinetics = True,
             animatedNavigation = True\<rparr>"

definition constructed :: "diagram \<Rightarrow> camera \<Rightarrow> 'k machine" where
  "constructed d cam =
     \<lparr>current = Some Idle, lastSt = None, lastState_prop = Some Idle,
      camera = cam, diagram = d,
      panning = \<lparr>anchorX = 0, anchorY = 0, pressedX = 0, pressedY = 0,
                 kinetics = None, v_left = False, v_right = False,
                 v_bottom = False, v_top = False\<rparr>,
      animating = \<lparr>forceAnimation = False, animation = None\<rparr>\<rparr>"

definition sample_kinetics :: "(real \<times> real) list kinetics_ops" where
  "sample_kinetics =
     \<lparr>k_new = [],
      k_update = (\<lambda>dx dy h. (dx, dy) # h),
      k_reset = (\<lambda>h. []),
      k_speed = (\<lambda>h. case h of [] \<Rightarrow> 0 | (dx, dy) # r \<Rightarrow> \<bar>dx\<bar> + \<bar>dy\<bar>),
      k_angle = (\<lambda>h. 0),
      k_hasEnoughMomentum = (\<lambda>h. case h of [] \<Rightarrow> False | (dx, dy) # r \<Rightarrow> 1 < \<bar>dx\<bar> + \<bar>dy\<bar>)\<rparr>"

text \<open>
  The constructed machine after a press at the origin and a drag of 900 pixels to the
  right: the camera's world origin lies at \<open>- 900\<close>, beyond the left limit \<open>- 800\<close>; no
  edge is marked yet, because the move was checked against the position before it.
\<close>

definition panned_left :: "(real \<times> real) list machine" where
  "panned_left =
     (constructed all_on scenario_camera)
       \<lparr>current := Some Panning, lastSt := Some Idle,
        camera := scenario_camera\<lparr>cameraX := - 900\<rparr>,
        panning := \<lparr>anchorX = 0, anchorY = 0, pressedX = 0, pressedY = 0,
                    kinetics = Some [(- 900, 0)], v_left = False, v_right = False,
                    v_bottom = False, v_top = False\<rparr>\<rparr>"

text \<open>
  The constructed machine after a press at the origin and a drag of 2000 pixels to the
  left: the right side of the view lies on the right limit 2800.
\<close>

definition panned_right :: "(real \<times> real) list machine" where
  "panned_right =
     (constructed all_on scenario_camera)
       \<lparr>current := Some Panning, lastSt := Some Idle,
        camera := scenario_camera\<lparr>cameraX := 2000\<rparr>,
        panning := \<lparr>anchorX = 0, anchorY = 0, pressedX = 0, pressedY = 0,
                    kinetics = Some [(2000, 0)], v_left = False, v_right = False,
                    v_bottom = False, v_top = False\<rparr>\<rparr>"

section \<open>Properties of the camera\<close>

lemma zoomToAbout_scale: "scale (zoomToAbout s ax ay c) = s"
  by (simp add: zoomToAbout_def Let_def)

lemma castRayX_screenX: "scale c \<noteq> 0 \<Longrightarrow> castRayX c (screenX c wx) = wx"
  by (simp add: castRayX_def screenX_def)

lemma screenX_castRayX: "scale c \<noteq> 0 \<Longrightarrow> screenX c (castRayX c sx) = sx"
  by (simp add: castRayX_def screenX_def)

text \<open>
  Claim C1. \<open>zoomToAbout\<close> leaves the anchor fixed on screen: for a camera with positive
  scale, a positive target scale \<open>s\<close> and a world anchor \<open>(ax, ay)\<close>, the screen projection of
  the anchor after \<open>zoomToAbout s ax ay\<close> is the one before the call.
\<close>

theorem zoomToAbout_anchor_fixed:
  assumes "0 < scale c" and "0 < s"
  shows "screenX (zoomToAbout s ax ay c) ax = screenX c ax
       \<and> screenY (zoomToAbout s ax ay c) ay = screenY c ay"
  using assms
  by (simp add: zoomToAbout_def Let_def screenX_def screenY_def worldX_def worldY_def
      field_simps)

theorem zoomToAbout_anchor_fixed_witness:
  "screenX (zoomToAbout 2 400 300 \<lparr>cameraX = 0, cameraY = 0, scale = 1,
       visualWidth = 800, visualHeight = 600\<rparr>) 400 = 400
   \<and> screenY (zoomToAbout 2 400 300 \<lparr>cameraX = 0, cameraY = 0, scale = 1,
       visualWidth = 800, visualHeight = 600\<rparr>) 300 = 300"
  using zoomToAbout_anchor_fixed [of "\<lparr>cameraX = 0, cameraY = 0, scale = 1,
       visualWidth = 800, visualHeight = 600\<rparr>" 2 400 300]
  by (simp add: screenX_def screenY_def worldX_def worldY_def)

section \<open>Properties of the state machine\<close>

lemma lookup_cases:
  "lookup s = (if s = ''idle'' then Some Idle else if s = ''panning'' then Some Panning
     else if s = ''animating'' then Some Animating else None)"
  by (simp add: lookup_def states_def)

lemma lookup_supported: "lookup s \<noteq> None \<longleftrightarrow> s \<in> set supportedStates"
  by (simp add: lookup_cases supportedStates_def)

lemma lookup_name: "lookup s = Some st \<Longrightarrow> name st = s"
  by (auto simp add: lookup_cases split: if_splits)

lemma leaveState_keeps:
  "leaveState K c m = Inr m1 \<Longrightarrow>
     current m1 = current m \<and> lastSt m1 = lastSt m \<and> lastState_prop m1 = lastState_prop m
     \<and> camera m1 = camera m \<and> diagram m1 = diagram m"
  by (cases c) (auto simp add: resetViolations_def split: option.splits)

lemma constructor_eq: "constructor K d cam = Inr (constructed d cam)"
  by (simp add: constructor_def constructed_def goto.simps lookup_idle)

lemma goto_keeps_lastState_prop:
  "goto K s p m = Inr m' \<Longrightarrow> lastState_prop m' = lastState_prop m"
  apply (cases "lookup s")
   apply (simp add: goto.simps)
  subgoal for st
    by (cases st)
      (auto simp add: goto.simps lookup_idle Let_def Panning_handleMouseDown_def
        split: option.splits sum.splits dest!: leaveState_keeps)
  done

lemma goto_split:
  assumes "lookup state = Some newState"
  shows "goto K state params m =
           (case (case current m of Some c \<Rightarrow> leaveState K c m | None \<Rightarrow> Inr m) of
              Inl e \<Rightarrow> Inl e
            | Inr m1 \<Rightarrow>
                enterState K newState params (m1\<lparr>lastSt := current m, current := Some newState\<rparr>))"
  using assms
  by (auto simp add: goto.simps dest: leaveState_keeps split: option.splits sum.splits)

lemma enterState_plain:
  assumes "enterState K st params m = Inr m'" and "\<not> (st = Animating \<and> params = None)"
  shows "current m' = current m \<and> lastSt m' = lastSt m"
  using assms
  by (cases st) (auto simp add: Let_def Panning_handleMouseDown_def split: option.splits)

text \<open>
  Claim C7. For a supported target name, \<open>goto\<close> is the composition, in this order, of
  \<open>leaveState\<close> of the current state (when there is one), the assignment of the previous
  current state to \<open>last\<close> and of the target to \<open>current\<close>, and \<open>enterState\<close> of the target
  with the parameters; unless the target is \<open>Animating\<close> entered without parameters (which
  goes on to \<open>Idle\<close>), the machine ends with the target current and the previous state in
  \<open>last\<close>. For any other name \<open>goto\<close> returns the machine unchanged.
\<close>

theorem goto_steps:
  "(state \<in> set supportedStates \<longrightarrow>
      (\<exists>newState. lookup state = Some newState \<and> name newState = state \<and>
         goto K state params m =
           (case (case current m of Some c \<Rightarrow> leaveState K c m | None \<Rightarrow> Inr m) of
              Inl e \<Rightarrow> Inl e
            | Inr m1 \<Rightarrow>
                enterState K newState params (m1\<lparr>lastSt := current m, current := Some newState\<rparr>))
         \<and> (\<forall>m'. goto K state params m = Inr m' \<and> \<not> (newState = Animating \<and> params = None)
               \<longrightarrow> current m' = Some newState \<and> lastSt m' = current m)))
   \<and> (state \<notin> set supportedStates \<longrightarrow> goto K state params m = Inr m)"
proof (intro conjI impI)
  assume "state \<in> set supportedStates"
  then obtain newState where l: "lookup state = Some newState"
    using lookup_supported [of state] by auto
  have n: "name newState = state"
    using l by (rule lookup_name)
  have g: "goto K state params m =
           (case (case current m of Some c \<Rightarrow> leaveState K c m | None \<Rightarrow> Inr m) of
              Inl e \<Rightarrow> Inl e
            | Inr m1 \<Rightarrow>
                enterState K newState params (m1\<lparr>lastSt := current m, current := Some newState\<rparr>))"
    using l by (rule goto_split)
  have o: "\<forall>m'. goto K state params m = Inr m' \<and> \<not> (newState = Animating \<and> params = None)
               \<longrightarrow> current m' = Some newState \<and> lastSt m' = current m"
  proof (intro allI impI)
    fix m'
    assume a: "goto K state params m = Inr m' \<and> \<not> (newState = Animating \<and> params = None)"
    then obtain m1 where e: "enterState K newState params (m1\<lparr>lastSt := current m, current := Some newState\<rparr>) = Inr m'"
      unfolding g by (auto split: sum.splits)
    from enterState_plain [OF e] a show "current m' = Some newState \<and> lastSt m' = current m"
      by simp
  qed
  from l n g o show "\<exists>newState. lookup state = Some newState \<and> name newState = state \<and>
         goto K state params m =
           (case (case current m of Some c \<Rightarrow> leaveState K c m | None \<Rightarrow> Inr m) of
              Inl e \<Rightarrow> Inl e
            | Inr m1 \<Rightarrow>
                enterState K newState params (m1\<lparr>lastSt := current m, current := Some newState\<rparr>))
         \<and> (\<forall>m'. goto K state params m = Inr m' \<and> \<not> (newState = Animating \<and> params = None)
               \<longrightarrow> current m' = Some newState \<and> lastSt m' = current m)"
    by blast
next
  assume "state \<notin> set supportedStates"
  then have "lookup state = None" using lookup_supported [of state] by auto
  then show "goto K state params m = Inr m" by (simp add: goto.simps)
qed

theorem goto_steps_witness:
  "''panning'' \<in> set supportedStates
   \<and> goto sample_kinetics ''panning''
        (Some \<lparr>p_x = Some 3, p_y = Some 4, forced = None, interpolator = None\<rparr>)
        (constructed all_on scenario_camera)
      = Inr ((constructed all_on scenario_camera)
          \<lparr>current := Some Panning, lastSt := Some Idle,
           panning := \<lparr>anchorX = 0, anchorY = 0, pressedX = 3, pressedY = 4,
                 kinetics = Some [], v_left = False, v_right = False,
                 v_bottom = False, v_top = False\<rparr>\<rparr>)
   \<and> ''drawing'' \<notin> set supportedStates
   \<and> goto sample_kinetics ''drawing'' None (constructed all_on scenario_camera)
      = Inr (constructed all_on scenario_camera)"
  using goto_steps [of "''panning''" sample_kinetics
        "Some \<lparr>p_x = Some 3, p_y = Some 4, forced = None, interpolator = None\<rparr>"
        "constructed all_on scenario_camera"]
    goto_steps [of "''drawing''" sample_kinetics None "constructed all_on scenario_camera"]
  by (simp add: supportedStates_def lookup_cases constructed_def scenario_camera_def
      sample_kinetics_def Panning_handleMouseDown_def Let_def)

text \<open>
  Claim C10. Right after construction \<open>currentState()\<close> returns \<open>'idle'\<close>, the field
  \<open>last\<close> is undefined, the own property \<open>lastState\<close> holds the idle state object, and the
  call \<open>lastState()\<close> fails instead of returning a state name.
\<close>

theorem constructor_lastState:
  "\<exists>m. constructor K d cam = Inr m \<and> currentState m = Inr ''idle'' \<and> lastSt m = None
      \<and> lastState_prop m = Some Idle \<and> lastState m = Inl TypeError"
  by (simp add: constructor_eq constructed_def currentState_def lastState_def)


text \<open>
  Nothing removes the own property \<open>lastState\<close>: no event changes it, so \<open>lastState()\<close>
  keeps failing after later transitions as well.
\<close>

lemma handleLimits_keeps:
  "lastState_prop (snd (handleLimits h drag m)) = lastState_prop m"
  by (simp add: handleLimits_def updateBanding_def Let_def)

lemma handleMouseDown_keeps:
  assumes "handleMouseDown K x y m = Inr m'"
  shows "lastState_prop m' = lastState_prop m"
proof (cases "current m")
  case None
  with assms show ?thesis by (simp add: handleMouseDown.simps)
next
  case (Some st)
  show ?thesis
  proof (cases st)
    case Idle
    with Some assms show ?thesis
      by (simp add: handleMouseDown.simps Idle_handleMouseDown_def goto_keeps_lastState_prop)
  next
    case Panning
    with Some assms show ?thesis
      by (auto simp add: handleMouseDown.simps Panning_handleMouseDown_def)
  next
    case Animating
    show ?thesis
    proof (cases "forceAnimation (animating m)")
      case True
      with Some Animating assms show ?thesis
        by (simp add: handleMouseDown.simps Animating_handleMouseDown.simps)
    next
      case False
      with Some Animating assms obtain m1 where
        g: "goto K ''panning'' None m = Inr m1" and h: "handleMouseDown K x y m1 = Inr m'"
        by (auto simp add: handleMouseDown.simps [of K x y m] Animating_handleMouseDown.simps
            split: sum.splits)
      from goto_panning_current [OF g] h have "m' = Panning_handleMouseDown x y m1"
        by (simp add: handleMouseDown.simps)
      then have "lastState_prop m' = lastState_prop m1"
        by (simp add: Panning_handleMouseDown_def)
      with goto_keeps_lastState_prop [OF g] show ?thesis by simp
    qed
  qed
qed

lemma Panning_handleMouseMove_keeps:
  assumes "Panning_handleMouseMove K x y m = Inr m'"
  shows "lastState_prop m' = lastState_prop m"
proof -
  obtain lx m1 where a: "(if respectLimits (diagram m) then handleLimits True (pressedX (panning m) - anchorX (panning m) - x) m
                          else (pressedX (panning m) - anchorX (panning m) - x, m)) = (lx, m1)"
    by (cases "(if respectLimits (diagram m) then handleLimits True (pressedX (panning m) - anchorX (panning m) - x) m
                          else (pressedX (panning m) - anchorX (panning m) - x, m))") auto
  obtain ly m2 where b: "(if respectLimits (diagram m) then handleLimits False (pressedY (panning m) - anchorY (panning m) - y) m1
                          else (pressedY (panning m) - anchorY (panning m) - y, m1)) = (ly, m2)"
    by (cases "(if respectLimits (diagram m) then handleLimits False (pressedY (panning m) - anchorY (panning m) - y) m1
                          else (pressedY (panning m) - anchorY (panning m) - y, m1))") auto
  have 1: "lastState_prop m1 = lastState_prop m"
    using a handleLimits_keeps [of True "pressedX (panning m) - anchorX (panning m) - x" m]
    by (auto split: if_splits)
  have 2: "lastState_prop m2 = lastState_prop m1"
    using b handleLimits_keeps [of False "pressedY (panning m) - anchorY (panning m) - y" m1]
    by (auto split: if_splits)
  from assms have "lastState_prop m' = lastState_prop m2"
    unfolding Panning_handleMouseMove_def Let_def a b prod.case
    by (auto split: if_splits option.splits)
  with 1 2 show ?thesis by simp
qed

lemma Panning_handleMouseUp_keeps:
  assumes "Panning_handleMouseUp K x y m = Inr m'"
  shows "lastState_prop m' = lastState_prop m"
  using assms unfolding Panning_handleMouseUp_def Let_def
  by (auto split: if_splits sum.splits bool.splits option.splits
      dest: goto_keeps_lastState_prop)

lemma handleZoom_keeps:
  assumes "handleZoom K x y f m = Inr m'"
  shows "lastState_prop m' = lastState_prop m"
proof (cases "current m")
  case None
  with assms show ?thesis by (simp add: handleZoom.simps)
next
  case (Some st)
  show ?thesis
  proof (cases st)
    case Idle
    with Some assms show ?thesis
      by (auto simp add: handleZoom.simps Idle_handleZoom_def Let_def)
  next
    case Panning
    with Some assms show ?thesis
      by (auto simp add: handleZoom.simps)
  next
    case Animating
    show ?thesis
    proof (cases "forceAnimation (animating m)")
      case True
      with Some Animating assms show ?thesis
        by (simp add: handleZoom.simps Animating_handleZoom.simps)
    next
      case False
      with Some Animating assms obtain m1 where
        g: "goto K ''idle'' None m = Inr m1" and h: "handleZoom K x y f m1 = Inr m'"
        by (auto simp add: handleZoom.simps [of K x y f m] Animating_handleZoom.simps
            split: sum.splits)
      from goto_idle_current [OF g] h have "m' = Idle_handleZoom x y f m1"
        by (simp add: handleZoom.simps)
      then have "lastState_prop m' = lastState_prop m1"
        by (simp add: Idle_handleZoom_def Let_def)
      with goto_keeps_lastState_prop [OF g] show ?thesis by simp
    qed
  qed
qed

lemma handle_keeps_lastState_prop:
  assumes "handle K e m = Inr m'"
  shows "lastState_prop m' = lastState_prop m"
proof (cases e)
  case (MouseDown x y)
  with assms show ?thesis by (simp add: handleMouseDown_keeps)
next
  case (MouseMove x y)
  with assms show ?thesis
    by (auto simp add: handleMouseMove_def Panning_handleMouseMove_keeps
        split: option.splits state_id.splits)
next
  case (MouseUp x y)
  with assms show ?thesis
    by (auto simp add: handleMouseUp_def Panning_handleMouseUp_keeps
        split: option.splits state_id.splits)
next
  case (Zoom x y f)
  with assms show ?thesis by (simp add: handleZoom_keeps)
next
  case Abort
  with assms show ?thesis
    by (auto simp add: handleAbort_def Animating_handleAbort_def
        split: option.splits state_id.splits dest: goto_keeps_lastState_prop)
next
  case Stop
  with assms show ?thesis
    by (auto simp add: handleStop_def Animating_handleStop_def
        split: option.splits state_id.splits if_splits dest: goto_keeps_lastState_prop)
qed

lemma run_keeps_lastState_prop:
  "run K es m = Inr m' \<Longrightarrow> lastState_prop m' = lastState_prop m"
  by (induction es arbitrary: m) (auto split: sum.splits dest: handle_keeps_lastState_prop)

lemma lastState_never_returns:
  assumes "constructor K d cam = Inr m0" and "run K es m0 = Inr m"
  shows "lastState m = Inl TypeError"
proof -
  have "lastState_prop m0 = Some Idle"
    using assms(1) by (auto simp add: constructor_eq constructed_def)
  with run_keeps_lastState_prop [OF assms(2)] show ?thesis
    by (simp add: lastState_def)
qed

lemma forced_handle:
  assumes "current m = Some Animating" "forceAnimation (animating m)" "down_wheel_or_stop e"
  shows "handle K e m = Inr m"
  using assms
  by (cases e) (simp_all add: handleMouseDown.simps Animating_handleMouseDown.simps
      handleZoom.simps Animating_handleZoom.simps handleStop_def Animating_handleStop_def)

lemma forced_run:
  assumes "current m = Some Animating" "forceAnimation (animating m)"
    "\<forall>e \<in> set es. down_wheel_or_stop e"
  shows "run K es m = Inr m"
  using assms
  by (induction es) (simp_all add: forced_handle)

lemma abort_idle:
  assumes "current m = Some Animating"
  shows "\<exists>m'. handleAbort K m = Inr m' \<and> current m' = Some Idle"
  using assms
  by (auto simp add: handleAbort_def Animating_handleAbort_def goto.simps lookup_idle
      split: option.splits)

lemma goto_animating_params:
  assumes "goto K ''animating'' (Some p) m0 = Inr m"
  shows "current m = Some Animating \<and> forceAnimation (animating m) = (forced p = Some True)
       \<and> animation (animating m) = interpolator p \<and> interpolator p \<noteq> None"
  using assms
  by (auto simp add: goto_split [OF lookup_animating] split: option.splits sum.splits)

text \<open>
  Claim C6. An \<open>Animating\<close> state entered with \<open>forced = true\<close> is current and stays
  unchanged, with the whole machine, under every sequence of pointer-down, wheel and stop
  events (so a pointer-down does not reach \<open>Panning\<close>); an abort request returns to \<open>Idle\<close>.
\<close>

theorem forced_animation:
  assumes "goto K ''animating'' (Some p) m0 = Inr m" and "forced p = Some True"
  shows "current m = Some Animating
       \<and> (\<forall>es. (\<forall>e \<in> set es. down_wheel_or_stop e) \<longrightarrow> run K es m = Inr m)
       \<and> (\<exists>m'. handleAbort K m = Inr m' \<and> current m' = Some Idle)"
proof -
  from goto_animating_params [OF assms(1)] assms(2)
  have c: "current m = Some Animating" and f: "forceAnimation (animating m)"
    by simp_all
  from c f have "\<forall>es. (\<forall>e \<in> set es. down_wheel_or_stop e) \<longrightarrow> run K es m = Inr m"
    by (simp add: forced_run)
  with c abort_idle [OF c] show ?thesis by blast
qed

theorem forced_animation_witness:
  "goto sample_kinetics ''animating''
      (Some \<lparr>p_x = None, p_y = None, forced = Some True,
             interpolator = Some (CenterOnWorld 0 0 300)\<rparr>)
      (constructed all_on scenario_camera)
    = Inr ((constructed all_on scenario_camera)
        \<lparr>current := Some Animating, lastSt := Some Idle,
         animating := \<lparr>forceAnimation = True, animation = Some (CenterOnWorld 0 0 300)\<rparr>\<rparr>)
   \<and> run sample_kinetics [MouseDown 1 2, Zoom 1 2 3, Stop]
        ((constructed all_on scenario_camera)
          \<lparr>current := Some Animating, lastSt := Some Idle,
           animating := \<lparr>forceAnimation = True, animation = Some (CenterOnWorld 0 0 300)\<rparr>\<rparr>)
      = Inr ((constructed all_on scenario_camera)
          \<lparr>current := Some Animating, lastSt := Some Idle,
           animating := \<lparr>forceAnimation = True, animation = Some (CenterOnWorld 0 0 300)\<rparr>\<rparr>)
   \<and> (\<exists>m'. handleAbort sample_kinetics
          ((constructed all_on scenario_camera)
            \<lparr>current := Some Animating, lastSt := Some Idle,
             animating := \<lparr>forceAnimation = True, animation = Some (CenterOnWorld 0 0 300)\<rparr>\<rparr>)
          = Inr m' \<and> current m' = Some Idle)"
proof -
  have g: "goto sample_kinetics ''animating''
      (Some \<lparr>p_x = None, p_y = None, forced = Some True,
             interpolator = Some (CenterOnWorld 0 0 300)\<rparr>)
      (constructed all_on scenario_camera)
    = Inr ((constructed all_on scenario_camera)
        \<lparr>current := Some Animating, lastSt := Some Idle,
         animating := \<lparr>forceAnimation = True, animation = Some (CenterOnWorld 0 0 300)\<rparr>\<rparr>)"
    by (simp add: goto.simps lookup_cases constructed_def)
  have s: "\<forall>e \<in> set [MouseDown 1 2, Zoom 1 2 3, Stop]. down_wheel_or_stop e"
    by simp
  from forced_animation [OF g]
  have r: "\<forall>es. (\<forall>e \<in> set es. down_wheel_or_stop e) \<longrightarrow>
           run sample_kinetics es ((constructed all_on scenario_camera)
             \<lparr>current := Some Animating, lastSt := Some Idle,
              animating := \<lparr>forceAnimation = True, animation = Some (CenterOnWorld 0 0 300)\<rparr>\<rparr>)
           = Inr ((constructed all_on scenario_camera)
             \<lparr>current := Some Animating, lastSt := Some Idle,
              animating := \<lparr>forceAnimation = True, animation = Some (CenterOnWorld 0 0 300)\<rparr>\<rparr>)"
    and a: "\<exists>m'. handleAbort sample_kinetics
          ((constructed all_on scenario_camera)
            \<lparr>current := Some Animating, lastSt := Some Idle,
             animating := \<lparr>forceAnimation = True, animation = Some (CenterOnWorld 0 0 300)\<rparr>\<rparr>)
          = Inr m' \<and> current m' = Some Idle"
    by simp_all
  from r s g a show ?thesis
    by blast
qed

lemma goto_animating_enter:
  assumes "current m = Some Panning" and "kinetics (panning m) = Some k"
  shows "\<exists>m'. goto K ''animating''
            (Some \<lparr>p_x = None, p_y = None, forced = Some False, interpolator = Some a\<rparr>) m = Inr m'
          \<and> current m' = Some Animating \<and> lastSt m' = Some Panning
          \<and> animation (animating m') = Some a \<and> \<not> forceAnimation (animating m')"
  using assms
  by (simp add: goto_split [OF lookup_animating] resetViolations_def)

lemma becomeIdle_from_panning:
  assumes "current m = Some Panning" and "kinetics (panning m) = Some k"
  shows "\<exists>m'. becomeIdle K m = Inr m' \<and> current m' = Some Idle \<and> lastSt m' = Some Panning"
  using assms
  by (simp add: goto_split [OF lookup_idle] resetViolations_def)

text \<open>
  Claim C5, as the code has it. On pointer-up in \<open>Panning\<close>: when rubber-banding is enabled
  and an edge is marked violated, the machine goes to \<open>Animating\<close> with the unforced
  \<open>centerOnWorld\<close> correction of 300 ms if animated navigation is enabled, and directly to
  \<open>Idle\<close> if it is not; otherwise, when kinetics is enabled and the momentum suffices, it
  goes to \<open>Animating\<close> with the unforced \<open>throwCamera\<close> animation of 333 ms; otherwise it
  goes to \<open>Idle\<close>.
\<close>

theorem release_precedence:
  assumes "current m = Some Panning" and "kinetics (panning m) = Some k"
  shows "(rubberBanding (diagram m)
            \<and> (v_left (panning m) \<or> v_right (panning m) \<or> v_bottom (panning m) \<or> v_top (panning m))
            \<and> animatedNavigation (diagram m)
          \<longrightarrow> (\<exists>m' cx cy. handleMouseUp K x y m = Inr m' \<and> current m' = Some Animating
                 \<and> animation (animating m') = Some (CenterOnWorld cx cy 300)
                 \<and> \<not> forceAnimation (animating m')))
       \<and> (rubberBanding (diagram m)
            \<and> (v_left (panning m) \<or> v_right (panning m) \<or> v_bottom (panning m) \<or> v_top (panning m))
            \<and> \<not> animatedNavigation (diagram m)
          \<longrightarrow> (\<exists>m'. handleMouseUp K x y m = Inr m' \<and> current m' = Some Idle))
       \<and> (\<not> (rubberBanding (diagram m)
            \<and> (v_left (panning m) \<or> v_right (panning m) \<or> v_bottom (panning m) \<or> v_top (panning m)))
            \<and> useKinetics (diagram m) \<and> k_hasEnoughMomentum K k
          \<longrightarrow> (\<exists>m'. handleMouseUp K x y m = Inr m' \<and> current m' = Some Animating
                 \<and> animation (animating m') = Some (ThrowCamera (k_speed K k) (k_angle K k) 333)
                 \<and> \<not> forceAnimation (animating m')))
       \<and> (\<not> (rubberBanding (diagram m)
            \<and> (v_left (panning m) \<or> v_right (panning m) \<or> v_bottom (panning m) \<or> v_top (panning m)))
            \<and> \<not> (useKinetics (diagram m) \<and> k_hasEnoughMomentum K k)
          \<longrightarrow> (\<exists>m'. handleMouseUp K x y m = Inr m' \<and> current m' = Some Idle))"
proof (intro conjI impI)
  assume "rubberBanding (diagram m)
            \<and> (v_left (panning m) \<or> v_right (panning m) \<or> v_bottom (panning m) \<or> v_top (panning m))
            \<and> animatedNavigation (diagram m)"
  then have b: "isBanding m" and n: "animatedNavigation (diagram m)"
    by (simp_all add: isBanding_def Let_def)
  from b n assms(1)
  have "handleMouseUp K x y m = goto K ''animating''
          (Some \<lparr>p_x = None, p_y = None, forced = Some False,
             interpolator = Some (CenterOnWorld
                       (worldX (camera m) + projWidth (camera m) / 2
                          - calcDisplacement True (worldX (camera m))
                              (worldX (camera m) + projWidth (camera m)) m)
                       (worldY (camera m) + projHeight (camera m) / 2
                          - calcDisplacement False (worldY (camera m))
                              (worldY (camera m) + projHeight (camera m)) m) 300)\<rparr>) m"
    by (simp add: handleMouseUp_def Panning_handleMouseUp_def Let_def)
  with goto_animating_enter [OF assms, of K "CenterOnWorld
                       (worldX (camera m) + projWidth (camera m) / 2
                          - calcDisplacement True (worldX (camera m))
                              (worldX (camera m) + projWidth (camera m)) m)
                       (worldY (camera m) + projHeight (camera m) / 2
                          - calcDisplacement False (worldY (camera m))
                              (worldY (camera m) + projHeight (camera m)) m) 300"]
  show "\<exists>m' cx cy. handleMouseUp K x y m = Inr m' \<and> current m' = Some Animating
                 \<and> animation (animating m') = Some (CenterOnWorld cx cy 300)
                 \<and> \<not> forceAnimation (animating m')"
    by auto
next
  assume "rubberBanding (diagram m)
            \<and> (v_left (panning m) \<or> v_right (panning m) \<or> v_bottom (panning m) \<or> v_top (panning m))
            \<and> \<not> animatedNavigation (diagram m)"
  then have b: "isBanding m" and n: "\<not> animatedNavigation (diagram m)"
    by (simp_all add: isBanding_def Let_def)
  from becomeIdle_from_panning [OF assms, of K] b n assms(1)
  show "\<exists>m'. handleMouseUp K x y m = Inr m' \<and> current m' = Some Idle"
    by (auto simp add: handleMouseUp_def Panning_handleMouseUp_def)
next
  assume "\<not> (rubberBanding (diagram m)
            \<and> (v_left (panning m) \<or> v_right (panning m) \<or> v_bottom (panning m) \<or> v_top (panning m)))
            \<and> useKinetics (diagram m) \<and> k_hasEnoughMomentum K k"
  then have b: "\<not> isBanding m" and n: "isKinetic K m = Inr True"
    using assms(2) by (simp_all add: isBanding_def Let_def isKinetic_def)
  from b n assms
  have "handleMouseUp K x y m = goto K ''animating''
          (Some \<lparr>p_x = None, p_y = None, forced = Some False,
             interpolator = Some (ThrowCamera (k_speed K k) (k_angle K k) 333)\<rparr>) m"
    by (simp add: handleMouseUp_def Panning_handleMouseUp_def)
  with goto_animating_enter [OF assms, of K "ThrowCamera (k_speed K k) (k_angle K k) 333"]
  show "\<exists>m'. handleMouseUp K x y m = Inr m' \<and> current m' = Some Animating
                 \<and> animation (animating m') = Some (ThrowCamera (k_speed K k) (k_angle K k) 333)
                 \<and> \<not> forceAnimation (animating m')"
    by auto
next
  assume "\<not> (rubberBanding (diagram m)
            \<and> (v_left (panning m) \<or> v_right (panning m) \<or> v_bottom (panning m) \<or> v_top (panning m)))
            \<and> \<not> (useKinetics (diagram m) \<and> k_hasEnoughMomentum K k)"
  then have b: "\<not> isBanding m" and n: "isKinetic K m = Inr False"
    using assms(2) by (simp_all add: isBanding_def Let_def isKinetic_def)
  from becomeIdle_from_panning [OF assms, of K] b n assms(1)
  show "\<exists>m'. handleMouseUp K x y m = Inr m' \<and> current m' = Some Idle"
    by (auto simp add: handleMouseUp_def Panning_handleMouseUp_def)
qed

lemmas machine_defs = handleMouseDown.simps Animating_handleMouseDown.simps handleZoom.simps
  Animating_handleZoom.simps handleStop_def Animating_handleStop_def handleAbort_def
  Animating_handleAbort_def handleMouseMove_def handleMouseUp_def Idle_handleMouseDown_def
  Panning_handleMouseDown_def Panning_handleMouseMove_def Panning_handleMouseUp_def
  handleLimits_def updateBanding_def isBanding_def isKinetic_def calcDisplacement_def
  resetViolations_def goto.simps lookup_cases constructed_def scenario_camera_def all_on_def
  sample_kinetics_def limits_def worldX_def worldY_def projWidth_def projHeight_def moveTo_def
  Let_def

lemma run_to_banding:
  "run sample_kinetics [MouseDown 0 0, MouseMove 900 0, MouseMove 901 0]
         (constructed all_on scenario_camera)
   = Inr ((constructed all_on scenario_camera)
        \<lparr>current := Some Panning, lastSt := Some Idle,
         camera := scenario_camera\<lparr>cameraX := damp (- 901) (- 800) * (- 800)\<rparr>,
         panning := \<lparr>anchorX = 0, anchorY = 0, pressedX = 0, pressedY = 0,
                 kinetics = Some [(- 901, 0), (- 900, 0)], v_left = True, v_right = False,
                 v_bottom = False, v_top = False\<rparr>\<rparr>)"
  by (simp add: machine_defs)

theorem release_precedence_witness:
  "(\<exists>m'. handleMouseUp sample_kinetics 901 0
       ((constructed all_on scenario_camera)
        \<lparr>current := Some Panning, lastSt := Some Idle,
         camera := scenario_camera\<lparr>cameraX := damp (- 901) (- 800) * (- 800)\<rparr>,
         panning := \<lparr>anchorX = 0, anchorY = 0, pressedX = 0, pressedY = 0,
                 kinetics = Some [(- 901, 0), (- 900, 0)], v_left = True, v_right = False,
                 v_bottom = False, v_top = False\<rparr>\<rparr>) = Inr m'
      \<and> current m' = Some Animating
      \<and> (\<exists>cx cy. animation (animating m') = Some (CenterOnWorld cx cy 300)))
   \<and> (\<exists>m'. handleMouseUp sample_kinetics 10 0
       ((constructed all_on scenario_camera)
        \<lparr>current := Some Panning, lastSt := Some Idle,
         camera := scenario_camera\<lparr>cameraX := - 10\<rparr>,
         panning := \<lparr>anchorX = 0, anchorY = 0, pressedX = 0, pressedY = 0,
                 kinetics = Some [(- 10, 0)], v_left = False, v_right = False,
                 v_bottom = False, v_top = False\<rparr>\<rparr>) = Inr m'
      \<and> current m' = Some Animating
      \<and> animation (animating m') = Some (ThrowCamera 10 0 333))
   \<and> (\<exists>m'. handleMouseUp sample_kinetics 0 0
       ((constructed all_on scenario_camera)
        \<lparr>current := Some Panning, lastSt := Some Idle,
         panning := \<lparr>anchorX = 0, anchorY = 0, pressedX = 0, pressedY = 0,
                 kinetics = Some [], v_left = False, v_right = False,
                 v_bottom = False, v_top = False\<rparr>\<rparr>) = Inr m'
      \<and> current m' = Some Idle)"
  using release_precedence [of "(constructed all_on scenario_camera)
        \<lparr>current := Some Panning, lastSt := Some Idle,
         camera := scenario_camera\<lparr>cameraX := damp (- 901) (- 800) * (- 800)\<rparr>,
         panning := \<lparr>anchorX = 0, anchorY = 0, pressedX = 0, pressedY = 0,
                 kinetics = Some [(- 901, 0), (- 900, 0)], v_left = True, v_right = False,
                 v_bottom = False, v_top = False\<rparr>\<rparr>" "[(- 901, 0), (- 900, 0)]" sample_kinetics 901 0]
    release_precedence [of "(constructed all_on scenario_camera)
        \<lparr>current := Some Panning, lastSt := Some Idle,
         camera := scenario_camera\<lparr>cameraX := - 10\<rparr>,
         panning := \<lparr>anchorX = 0, anchorY = 0, pressedX = 0, pressedY = 0,
                 kinetics = Some [(- 10, 0)], v_left = False, v_right = False,
                 v_bottom = False, v_top = False\<rparr>\<rparr>" "[(- 10, 0)]" sample_kinetics 10 0]
    release_precedence [of "(constructed all_on scenario_camera)
        \<lparr>current := Some Panning, lastSt := Some Idle,
         panning := \<lparr>anchorX = 0, anchorY = 0, pressedX = 0, pressedY = 0,
                 kinetics = Some [], v_left = False, v_right = False,
                 v_bottom = False, v_top = False\<rparr>\<rparr>" "[]" sample_kinetics 0 0]
  by (auto simp add: constructed_def all_on_def sample_kinetics_def scenario_camera_def
      calcDisplacement_def worldX_def worldY_def projWidth_def projHeight_def limits_def Let_def)

text \<open>
  The claim C5 as stated fails: with animated navigation switched off, a release with the
  left edge marked violated goes directly to \<open>Idle\<close>. The machine is the constructed one
  after a press at the origin and two moves, the second of which marks the left edge.
\<close>

theorem release_to_idle_although_violated:
  "map_sum id (\<lambda>m. (current m, v_left (panning m)))
      (run sample_kinetics [MouseDown 0 0, MouseMove 900 0, MouseMove 901 0]
         (constructed (all_on\<lparr>animatedNavigation := False\<rparr>) scenario_camera))
     = Inr (Some Panning, True)
   \<and> map_sum id current
      (run sample_kinetics [MouseDown 0 0, MouseMove 900 0, MouseMove 901 0, MouseUp 901 0]
         (constructed (all_on\<lparr>animatedNavigation := False\<rparr>) scenario_camera))
     = Inr (Some Idle)"
  by (simp add: machine_defs)

text \<open>
  Claim C9. \<open>attach\<close> throws exactly when the node has no rendered visual, the group has no
  visual, or the visual of the group has no second child (the content container); when it
  returns, the visual of the node has been appended to the children of the content
  container and nothing else of the group's visual has changed.
\<close>

theorem attach_fails_exactly:
  "((\<exists>e. attach node g = Inl e) \<longleftrightarrow>
      (visual node = None \<or> visual g = None
       \<or> (\<exists>r. visual g = Some r \<and> length (children r) \<le> 1)))
   \<and> (\<forall>g'. attach node g = Inr g' \<longrightarrow>
        (\<exists>child r r'. visual node = Some child \<and> visual g = Some r \<and> visual g' = Some r'
           \<and> children (children r' ! 1) = children (children r ! 1) @ [child]
           \<and> length (children r') = length (children r)
           \<and> (\<forall>i. i \<noteq> 1 \<longrightarrow> children r' ! i = children r ! i)))"
  by (auto simp add: attach_def addChild_def Let_def split: option.splits if_splits)

theorem attach_fails_exactly_witness:
  "attach \<lparr>visual = None\<rparr> \<lparr>visual = Some (Display 1 [Display 2 [], Display 3 []])\<rparr>
     = Inl (Error ''Node has no rendered visual'')
   \<and> attach \<lparr>visual = Some (Display 7 [])\<rparr> \<lparr>visual = Some (Display 1 [Display 2 []])\<rparr>
     = Inl (Error ''Could not find low level content container'')
   \<and> attach \<lparr>visual = Some (Display 7 [])\<rparr>
        \<lparr>visual = Some (Display 1 [Display 2 [], Display 3 [Display 4 []]])\<rparr>
     = Inr \<lparr>visual = Some (Display 1 [Display 2 [], Display 3 [Display 4 [], Display 7 []]])\<rparr>"
  using attach_fails_exactly [of "\<lparr>visual = None\<rparr>"
      "\<lparr>visual = Some (Display 1 [Display 2 [], Display 3 []])\<rparr>"]
    attach_fails_exactly [of "\<lparr>visual = Some (Display 7 [])\<rparr>"
      "\<lparr>visual = Some (Display 1 [Display 2 [], Display 3 [Display 4 []]])\<rparr>"]
  by (simp add: attach_def addChild_def)


section \<open>Properties of zooming and panning\<close>

lemma handleLimits_frame:
  "camera (snd (handleLimits h drag m)) = camera m"
  "diagram (snd (handleLimits h drag m)) = diagram m"
  "current (snd (handleLimits h drag m)) = current m"
  "kinetics (panning (snd (handleLimits h drag m))) = kinetics (panning m)"
  by (simp_all add: handleLimits_def updateBanding_def Let_def)

lemma handleLimits_horizontal_flags:
  "v_left (panning (snd (handleLimits True drag m))) =
     (if worldX (camera m) \<le> limit_left limits then rubberBanding (diagram m) \<or> v_left (panning m)
      else False)"
  "v_right (panning (snd (handleLimits True drag m))) =
     (if worldX (camera m) \<le> limit_left limits then v_right (panning m)
      else if limit_right limits \<le> worldX (camera m) + projWidth (camera m)
        then rubberBanding (diagram m) \<or> v_right (panning m)
      else False)"
  "v_top (panning (snd (handleLimits True drag m))) = v_top (panning m)"
  "v_bottom (panning (snd (handleLimits True drag m))) = v_bottom (panning m)"
  by (simp_all add: handleLimits_def updateBanding_def Let_def)

lemma handleLimits_vertical_flags:
  "v_top (panning (snd (handleLimits False drag m))) =
     (if worldY (camera m) \<le> limit_top limits then rubberBanding (diagram m) \<or> v_top (panning m)
      else False)"
  "v_bottom (panning (snd (handleLimits False drag m))) =
     (if worldY (camera m) \<le> limit_top limits then v_bottom (panning m)
      else if limit_bottom limits \<le> worldY (camera m) + projHeight (camera m)
        then rubberBanding (diagram m) \<or> v_bottom (panning m)
      else False)"
  "v_left (panning (snd (handleLimits False drag m))) = v_left (panning m)"
  "v_right (panning (snd (handleLimits False drag m))) = v_right (panning m)"
  by (simp_all add: handleLimits_def updateBanding_def Let_def)

lemma handleLimits_offset:
  "fst (handleLimits h drag m) =
     (let min' = (if h then worldX (camera m) else worldY (camera m));
          wid = (if h then projWidth (camera m) else projHeight (camera m));
          lower = (if h then limit_left limits else limit_top limits);
          higher = (if h then limit_right limits else limit_bottom limits);
          s = scale (camera m)
      in if min' \<le> lower then
           (if rubberBanding (diagram m) then damp (drag / s) lower * lower * s else lower + 1)
         else if higher \<le> min' + wid then
           (if rubberBanding (diagram m) then (damp (drag / s + wid) higher * higher - wid) * s
            else higher - 1)
         else drag)"
  by (simp add: handleLimits_def Let_def)

lemma Panning_handleMouseMove_result:
  assumes "respectLimits (diagram m)" and "kinetics (panning m) = Some k"
  shows "\<exists>m'. Panning_handleMouseMove K x y m = Inr m'
     \<and> cameraX (camera m') = fst (handleLimits True (pressedX (panning m) - anchorX (panning m) - x) m)
     \<and> cameraY (camera m') = fst (handleLimits False (pressedY (panning m) - anchorY (panning m) - y) m)
     \<and> scale (camera m') = scale (camera m)
     \<and> v_left (panning m') = v_left (panning (snd (handleLimits True 0 m)))
     \<and> v_right (panning m') = v_right (panning (snd (handleLimits True 0 m)))
     \<and> v_top (panning m') = v_top (panning (snd (handleLimits False 0 m)))
     \<and> v_bottom (panning m') = v_bottom (panning (snd (handleLimits False 0 m)))"
  using assms
  by (simp add: Panning_handleMouseMove_def Let_def split_beta handleLimits_frame
      handleLimits_horizontal_flags handleLimits_vertical_flags handleLimits_offset moveTo_def)

lemma damp_formula:
  assumes "limit \<noteq> 0"
  shows "damp actual limit = 1 + log 10 (if actual = 0 then 1 else \<bar>actual\<bar> / \<bar>limit\<bar>)"
  using assms by (simp add: damp_def Let_def abs_divide)

lemma damp_power_of_ten:
  assumes "limit \<noteq> 0"
  shows "damp (limit * 10 powr k) limit = 1 + k"
  using assms by (simp add: damp_def Let_def)

lemma damp_bounds:
  assumes "limit \<noteq> 0" and "\<bar>limit\<bar> \<le> \<bar>actual\<bar>" and "\<bar>actual\<bar> \<le> 10 powr k * \<bar>limit\<bar>"
  shows "1 \<le> damp actual limit \<and> damp actual limit \<le> 1 + k"
proof -
  from assms(1) have lp: "0 < \<bar>limit\<bar>" by simp
  with assms(2) have ap: "0 < \<bar>actual\<bar>" by linarith
  then have a0: "actual \<noteq> 0" by auto
  let ?r = "\<bar>actual\<bar> / \<bar>limit\<bar>"
  from lp assms(2) have r1: "1 \<le> ?r" by (simp add: field_simps)
  from lp assms(3) have r2: "?r \<le> 10 powr k" by (simp add: field_simps)
  from r1 have rp: "0 < ?r" by linarith
  have d: "damp actual limit = 1 + log 10 ?r"
    using damp_formula [OF assms(1), of actual] a0 by simp
  have "0 \<le> log 10 ?r"
    using r1 rp by simp
  moreover have "log 10 ?r \<le> log 10 (10 powr k)"
    using r2 rp by (subst log_le_cancel_iff) simp_all
  then have "log 10 ?r \<le> k" by simp
  ultimately show ?thesis unfolding d by simp
qed

lemma log_nine_sevenths: "log 10 (9 / 7 :: real) < 2 / 7"
proof -
  have "7 * log 10 (9 / 7 :: real) = log 10 ((9 / 7) ^ 7)"
    by (simp add: log_nat_power)
  also have "\<dots> < log 10 100"
    by (subst log_less_cancel_iff) (simp_all add: power_divide)
  also have "log 10 (100 :: real) = 2"
  proof -
    have "log 10 (100 :: real) = log 10 (10 ^ 2)" by simp
    also have "\<dots> = 2" by (simp only: log_nat_power) simp
    finally show ?thesis .
  qed
  finally show ?thesis by simp
qed

lemma pow500_split: "(x::real) ^ 500 = (((x ^ 4) ^ 5) ^ 5) ^ 5"
proof -
  have "(((x ^ 4) ^ 5) ^ 5) ^ 5 = x ^ (4 * 5 * 5 * 5)"
    by (simp only: power_mult)
  also have "(4 * 5 * 5 * 5 :: nat) = 500" by simp
  finally show ?thesis by simp
qed

lemma pow500_lower: "(2.715 :: real) < 1.002 ^ 500"
proof -
  have a1: "(1.008024 :: real) \<le> 1.002 ^ 4" by (simp add: power_divide)
  have a2: "(1.040769 :: real) \<le> 1.008024 ^ 5" by (simp add: power_divide)
  have a3: "(1.2211576 :: real) \<le> 1.040769 ^ 5" by (simp add: power_divide)
  have a4: "(2.715 :: real) < 1.2211576 ^ 5" by (simp add: power_divide)
  have b2: "(1.040769 :: real) \<le> (1.002 ^ 4) ^ 5"
    using a2 power_mono [OF a1, of 5] by simp
  have b3: "(1.2211576 :: real) \<le> ((1.002 ^ 4) ^ 5) ^ 5"
    using a3 power_mono [OF b2, of 5] by simp
  have "(2.715 :: real) < (((1.002 ^ 4) ^ 5) ^ 5) ^ 5"
    using a4 power_mono [OF b3, of 5] by simp
  then show ?thesis by (simp only: pow500_split)
qed

lemma pow500_upper: "(1.002 :: real) ^ 500 < 2.716"
proof -
  have a1: "(1.002 :: real) ^ 4 \<le> 1.0080241" by (simp add: power_divide)
  have a2: "(1.0080241 :: real) ^ 5 \<le> 1.0407696" by (simp add: power_divide)
  have a3: "(1.0407696 :: real) ^ 5 \<le> 1.2211612" by (simp add: power_divide)
  have a4: "(1.2211612 :: real) ^ 5 < 2.716" by (simp add: power_divide)
  have b2: "((1.002 :: real) ^ 4) ^ 5 \<le> 1.0407696"
    using a2 power_mono [OF a1, of 5] by simp
  have b3: "(((1.002 :: real) ^ 4) ^ 5) ^ 5 \<le> 1.2211612"
    using a3 power_mono [OF b2, of 5] by simp
  have "((((1.002 :: real) ^ 4) ^ 5) ^ 5) ^ 5 < 2.716"
    using a4 power_mono [OF b3, of 5] by simp
  then show ?thesis by (simp only: pow500_split)
qed

lemma powr500: "(1.002 :: real) powr 500 = 1.002 ^ 500"
  by (simp add: powr_numeral)

lemma Idle_handleZoom_scale:
  "scale (camera (Idle_handleZoom x y units m)) =
     (let target = 1.002 powr units * scale (camera m);
          limit = (if visualWidth (camera m) > visualHeight (camera m)
                   then visualWidth (camera m) / (limit_right limits - limit_left limits)
                   else visualHeight (camera m) / (limit_bottom limits - limit_top limits))
      in if respectLimits (diagram m)
         then (if maxZoom \<le> target then maxZoom else max limit target)
         else target)"
  by (simp add: Idle_handleZoom_def Let_def zoomToAbout_scale max_def)

lemma limits_nonzero:
  "limit_left limits \<noteq> 0" "limit_top limits \<noteq> 0" "limit_right limits \<noteq> 0"
  "limit_bottom limits \<noteq> 0"
  by (simp_all add: limits_def)

lemma panned_left_reached:
  "run sample_kinetics [MouseDown 0 0, MouseMove 900 0] (constructed all_on scenario_camera)
     = Inr panned_left"
  by (simp add: machine_defs panned_left_def)

lemma panned_right_reached:
  "run sample_kinetics [MouseDown 0 0, MouseMove (- 2000) 0] (constructed all_on scenario_camera)
     = Inr panned_right"
  by (simp add: machine_defs panned_right_def)

text \<open>
  Claim C2, as the code has it. In \<open>Idle\<close> a wheel event leaves the machine in \<open>Idle\<close> and
  sets the scale to \<open>target = scale * 1.002^units\<close> when limits are not respected. When they
  are, the scale is the maximum zoom 10 if \<open>target \<ge> 10\<close>, and otherwise the larger of
  \<open>target\<close> and the minimum zoom: viewport width over the width of the limits when the
  viewport is wider than high, viewport height over the height of the limits otherwise.
  From scale 1 with a viewport of 800 by 600, 500 units give \<open>1.002^500\<close>, which lies between
  2.715 and 2.716.
\<close>

theorem idle_zoom_scale:
  assumes "current m = Some Idle"
  shows "\<exists>m'. handleZoom K x y units m = Inr m'
     \<and> current m' = Some Idle
     \<and> scale (camera m') =
         (let target = 1.002 powr units * scale (camera m);
              limit = (if visualWidth (camera m) > visualHeight (camera m)
                       then visualWidth (camera m) / (limit_right limits - limit_left limits)
                       else visualHeight (camera m) / (limit_bottom limits - limit_top limits))
          in if respectLimits (diagram m)
             then (if maxZoom \<le> target then maxZoom else max limit target)
             else target)
     \<and> (scale (camera m) = 1 \<and> visualWidth (camera m) = 800 \<and> visualHeight (camera m) = 600
          \<and> units = 500
        \<longrightarrow> scale (camera m') = 1.002 ^ 500
            \<and> 2.715 < scale (camera m') \<and> scale (camera m') < 2.716)"
proof -
  have h: "handleZoom K x y units m = Inr (Idle_handleZoom x y units m)"
    using assms by (simp add: handleZoom.simps)
  have c: "current (Idle_handleZoom x y units m) = Some Idle"
    using assms by (simp add: Idle_handleZoom_def Let_def)
  have s: "scale (camera m) = 1 \<and> visualWidth (camera m) = 800 \<and> visualHeight (camera m) = 600
          \<and> units = 500
        \<longrightarrow> scale (camera (Idle_handleZoom x y units m)) = 1.002 ^ 500"
    using pow500_lower pow500_upper
    by (simp add: Idle_handleZoom_scale Let_def limits_def maxZoom_def powr500)
  from h c s pow500_lower pow500_upper Idle_handleZoom_scale [of x y units m]
  show ?thesis by simp
qed

theorem idle_zoom_scale_witness:
  "\<exists>m'. handleZoom sample_kinetics 400 300 500 (constructed all_on scenario_camera) = Inr m'
     \<and> scale (camera m') = 1.002 ^ 500
     \<and> 2.715 < scale (camera m') \<and> scale (camera m') < 2.716"
  using idle_zoom_scale [of "constructed all_on scenario_camera" sample_kinetics 400 300 500]
  by (auto simp add: constructed_def scenario_camera_def)

text \<open>
  The claim C2 as stated fails: the maximum zoom is applied only when limits are respected.
  With limits not respected, a wheel event of 500 units at scale 5 gives a scale above 10.
\<close>

theorem zoom_above_maxZoom:
  "map_sum id (\<lambda>m. maxZoom < scale (camera m))
     (handleZoom sample_kinetics 400 300 500
        (constructed (all_on\<lparr>respectLimits := False\<rparr>) (scenario_camera\<lparr>scale := 5\<rparr>)))
   = Inr True"
proof -
  have "(10 :: real) < 1.002 ^ 500 * 5"
    using pow500_lower by simp
  then show ?thesis
    by (simp add: handleZoom.simps constructed_def all_on_def scenario_camera_def
        Idle_handleZoom_scale Let_def maxZoom_def powr500)
qed

text \<open>
  Claim C3, as the code has it. A pointer-move in \<open>Panning\<close> with limits respected and
  rubber-banding enabled, for a camera of positive scale, tests the camera's world
  rectangle as it is before the move. If its origin is at or below the lower bound
  (left, top), the applied offset is
  \<open>(1 + log10(|drag / scale| / |lower|)) * lower * scale\<close> and the lower edge is marked.
  Otherwise, if its far side (origin plus projected size) is at or above the upper bound
  (right, bottom), the applied offset is
  \<open>((1 + log10(|drag / scale + size| / |upper|)) * upper - size) * scale\<close>, the upper edge is
  marked and the lower edge cleared. Otherwise the raw drag is applied and both edges are
  cleared. The logarithm is dropped when its argument would be zero.
\<close>

theorem banding_move:
  assumes "current m = Some Panning" and "respectLimits (diagram m)"
    and "rubberBanding (diagram m)" and "kinetics (panning m) = Some k"
    and "0 < scale (camera m)"
  shows "\<exists>m'. handleMouseMove K x y m = Inr m'
     \<and> cameraX (camera m') =
         (let drag = pressedX (panning m) - anchorX (panning m) - x;
              s = scale (camera m); wid = projWidth (camera m)
          in if worldX (camera m) \<le> limit_left limits then
               (1 + log 10 (if drag = 0 then 1 else \<bar>drag / s\<bar> / \<bar>limit_left limits\<bar>))
                 * limit_left limits * s
             else if limit_right limits \<le> worldX (camera m) + wid then
               ((1 + log 10 (if drag / s + wid = 0 then 1
                             else \<bar>drag / s + wid\<bar> / \<bar>limit_right limits\<bar>))
                 * limit_right limits - wid) * s
             else drag)
     \<and> cameraY (camera m') =
         (let drag = pressedY (panning m) - anchorY (panning m) - y;
              s = scale (camera m); wid = projHeight (camera m)
          in if worldY (camera m) \<le> limit_top limits then
               (1 + log 10 (if drag = 0 then 1 else \<bar>drag / s\<bar> / \<bar>limit_top limits\<bar>))
                 * limit_top limits * s
             else if limit_bottom limits \<le> worldY (camera m) + wid then
               ((1 + log 10 (if drag / s + wid = 0 then 1
                             else \<bar>drag / s + wid\<bar> / \<bar>limit_bottom limits\<bar>))
                 * limit_bottom limits - wid) * s
             else drag)
     \<and> v_left (panning m') = (worldX (camera m) \<le> limit_left limits)
     \<and> v_right (panning m') =
         (if worldX (camera m) \<le> limit_left limits then v_right (panning m)
          else limit_right limits \<le> worldX (camera m) + projWidth (camera m))
     \<and> v_top (panning m') = (worldY (camera m) \<le> limit_top limits)
     \<and> v_bottom (panning m') =
         (if worldY (camera m) \<le> limit_top limits then v_bottom (panning m)
          else limit_bottom limits \<le> worldY (camera m) + projHeight (camera m))"
proof -
  from Panning_handleMouseMove_result [OF assms(2) assms(4), of K x y]
  obtain m' where r: "Panning_handleMouseMove K x y m = Inr m'"
    and cx: "cameraX (camera m') = fst (handleLimits True (pressedX (panning m) - anchorX (panning m) - x) m)"
    and cy: "cameraY (camera m') = fst (handleLimits False (pressedY (panning m) - anchorY (panning m) - y) m)"
    and fl: "v_left (panning m') = v_left (panning (snd (handleLimits True 0 m)))"
      "v_right (panning m') = v_right (panning (snd (handleLimits True 0 m)))"
      "v_top (panning m') = v_top (panning (snd (handleLimits False 0 m)))"
      "v_bottom (panning m') = v_bottom (panning (snd (handleLimits False 0 m)))"
    by blast
  have h: "handleMouseMove K x y m = Inr m'"
    using assms(1) r by (simp add: handleMouseMove_def)
  have s0: "scale (camera m) \<noteq> 0" using assms(5) by simp
  have x: "cameraX (camera m') =
         (let drag = pressedX (panning m) - anchorX (panning m) - x;
              s = scale (camera m); wid = projWidth (camera m)
          in if worldX (camera m) \<le> limit_left limits then
               (1 + log 10 (if drag = 0 then 1 else \<bar>drag / s\<bar> / \<bar>limit_left limits\<bar>))
                 * limit_left limits * s
             else if limit_right limits \<le> worldX (camera m) + wid then
               ((1 + log 10 (if drag / s + wid = 0 then 1
                             else \<bar>drag / s + wid\<bar> / \<bar>limit_right limits\<bar>))
                 * limit_right limits - wid) * s
             else drag)"
    unfolding cx using assms(3) s0
    by (simp add: handleLimits_offset Let_def damp_formula limits_nonzero)
  have y: "cameraY (camera m') =
         (let drag = pressedY (panning m) - anchorY (panning m) - y;
              s = scale (camera m); wid = projHeight (camera m)
          in if worldY (camera m) \<le> limit_top limits then
               (1 + log 10 (if drag = 0 then 1 else \<bar>drag / s\<bar> / \<bar>limit_top limits\<bar>))
                 * limit_top limits * s
             else if limit_bottom limits \<le> worldY (camera m) + wid then
               ((1 + log 10 (if drag / s + wid = 0 then 1
                             else \<bar>drag / s + wid\<bar> / \<bar>limit_bottom limits\<bar>))
                 * limit_bottom limits - wid) * s
             else drag)"
    unfolding cy using assms(3) s0
    by (simp add: handleLimits_offset Let_def damp_formula limits_nonzero)
  have f: "v_left (panning m') = (worldX (camera m) \<le> limit_left limits)"
     "v_right (panning m') =
         (if worldX (camera m) \<le> limit_left limits then v_right (panning m)
          else limit_right limits \<le> worldX (camera m) + projWidth (camera m))"
     "v_top (panning m') = (worldY (camera m) \<le> limit_top limits)"
     "v_bottom (panning m') =
         (if worldY (camera m) \<le> limit_top limits then v_bottom (panning m)
          else limit_bottom limits \<le> worldY (camera m) + projHeight (camera m))"
    unfolding fl using assms(3)
    by (simp_all add: handleLimits_horizontal_flags handleLimits_vertical_flags)
  from h x y f show ?thesis by blast
qed

theorem banding_move_witness:
  "\<exists>m'. handleMouseMove sample_kinetics 8000 0 panned_left = Inr m'
     \<and> cameraX (camera m') = - 1600 \<and> cameraY (camera m') = 0
     \<and> v_left (panning m') \<and> \<not> v_right (panning m')"
  using banding_move [of panned_left "[(- 900, 0)]" sample_kinetics 8000 0]
  by (auto simp add: panned_left_def constructed_def all_on_def scenario_camera_def limits_def
      worldX_def worldY_def projWidth_def projHeight_def Let_def)

text \<open>
  The claim C3 as stated fails on the right and bottom edges, where the formula takes the
  projected size into account. After a press at the origin and a drag that puts the
  right side of the view on the right limit, a move with drag 2800 marks the right edge,
  and the applied offset differs from \<open>(1 + log10(|drag / scale| / limit)) * limit * scale\<close>
  for the limit 2800.
\<close>

theorem banding_offset_right_edge:
  "map_sum id (\<lambda>m. (v_right (panning m),
        cameraX (camera m) = (1 + log 10 (\<bar>2800 / 1\<bar> / limit_right limits)) * limit_right limits * 1))
     (run sample_kinetics [MouseDown 0 0, MouseMove (- 2000) 0, MouseMove (- 2800) 0]
        (constructed all_on scenario_camera))
   = Inr (True, False)"
proof -
  have "damp 3600 2800 = 1 + log 10 (9 / 7)"
    by (simp add: damp_def Let_def)
  with log_nine_sevenths have "damp 3600 2800 * 2800 - 800 \<noteq> 2800"
    by simp
  then show ?thesis
    by (simp add: machine_defs)
qed

text \<open>
  Claim C4, as the code has it. The damping is logarithmic: when the dragged distance lies
  between the limit and \<open>10^k\<close> times the limit in absolute value, the damping factor lies
  between 1 and \<open>1 + k\<close>. On the left and top edges the damped offset is then at most
  \<open>(1 + k) * |limit| * scale\<close> in absolute value; on the right and bottom edges it lies
  between \<open>(limit - size) * scale\<close> and \<open>((1 + k) * limit - size) * scale\<close>.
\<close>

theorem damping_logarithmic:
  assumes "rubberBanding (diagram m)" and "0 < scale (camera m)" and "0 \<le> k"
  shows "(\<forall>actual limit. limit \<noteq> 0 \<and> \<bar>limit\<bar> \<le> \<bar>actual\<bar> \<and> \<bar>actual\<bar> \<le> 10 powr k * \<bar>limit\<bar>
            \<longrightarrow> 1 \<le> damp actual limit \<and> damp actual limit \<le> 1 + k)
       \<and> (let min' = (if h then worldX (camera m) else worldY (camera m));
               wid = (if h then projWidth (camera m) else projHeight (camera m));
               lower = (if h then limit_left limits else limit_top limits);
               higher = (if h then limit_right limits else limit_bottom limits);
               s = scale (camera m)
           in (min' \<le> lower \<and> \<bar>lower\<bar> \<le> \<bar>drag / s\<bar> \<and> \<bar>drag / s\<bar> \<le> 10 powr k * \<bar>lower\<bar>
                 \<longrightarrow> \<bar>fst (handleLimits h drag m)\<bar> \<le> (1 + k) * \<bar>lower\<bar> * s)
              \<and> (lower < min' \<and> higher \<le> min' + wid
                   \<and> \<bar>higher\<bar> \<le> \<bar>drag / s + wid\<bar> \<and> \<bar>drag / s + wid\<bar> \<le> 10 powr k * \<bar>higher\<bar>
                 \<longrightarrow> (higher - wid) * s \<le> fst (handleLimits h drag m)
                     \<and> fst (handleLimits h drag m) \<le> ((1 + k) * higher - wid) * s))"
proof (intro conjI allI impI)
  fix actual limit :: real
  assume "limit \<noteq> 0 \<and> \<bar>limit\<bar> \<le> \<bar>actual\<bar> \<and> \<bar>actual\<bar> \<le> 10 powr k * \<bar>limit\<bar>"
  then show "1 \<le> damp actual limit" and "damp actual limit \<le> 1 + k"
    using damp_bounds [of limit actual k] by simp_all
next
  let ?min = "if h then worldX (camera m) else worldY (camera m)"
  let ?wid = "if h then projWidth (camera m) else projHeight (camera m)"
  let ?lower = "if h then limit_left limits else limit_top limits"
  let ?higher = "if h then limit_right limits else limit_bottom limits"
  let ?s = "scale (camera m)"
  have lo: "?min \<le> ?lower \<and> \<bar>?lower\<bar> \<le> \<bar>drag / ?s\<bar> \<and> \<bar>drag / ?s\<bar> \<le> 10 powr k * \<bar>?lower\<bar>
                 \<longrightarrow> \<bar>fst (handleLimits h drag m)\<bar> \<le> (1 + k) * \<bar>?lower\<bar> * ?s"
  proof
    assume a: "?min \<le> ?lower \<and> \<bar>?lower\<bar> \<le> \<bar>drag / ?s\<bar> \<and> \<bar>drag / ?s\<bar> \<le> 10 powr k * \<bar>?lower\<bar>"
    have n: "?lower \<noteq> 0" by (simp add: limits_def)
    from damp_bounds [OF n, of "drag / ?s" k] a
    have d: "1 \<le> damp (drag / ?s) ?lower" "damp (drag / ?s) ?lower \<le> 1 + k"
      by simp_all
    have "fst (handleLimits h drag m) = damp (drag / ?s) ?lower * ?lower * ?s"
      using a assms(1) by (simp add: handleLimits_offset Let_def)
    then have "\<bar>fst (handleLimits h drag m)\<bar> = damp (drag / ?s) ?lower * \<bar>?lower\<bar> * ?s"
      using d(1) assms(2) by (simp add: abs_mult)
    also have "\<dots> \<le> (1 + k) * \<bar>?lower\<bar> * ?s"
      using d(2) assms(2) by (intro mult_right_mono) simp_all
    finally show "\<bar>fst (handleLimits h drag m)\<bar> \<le> (1 + k) * \<bar>?lower\<bar> * ?s" .
  qed
  have hi: "?lower < ?min \<and> ?higher \<le> ?min + ?wid
                   \<and> \<bar>?higher\<bar> \<le> \<bar>drag / ?s + ?wid\<bar> \<and> \<bar>drag / ?s + ?wid\<bar> \<le> 10 powr k * \<bar>?higher\<bar>
                 \<longrightarrow> (?higher - ?wid) * ?s \<le> fst (handleLimits h drag m)
                     \<and> fst (handleLimits h drag m) \<le> ((1 + k) * ?higher - ?wid) * ?s"
  proof
    assume a: "?lower < ?min \<and> ?higher \<le> ?min + ?wid
                   \<and> \<bar>?higher\<bar> \<le> \<bar>drag / ?s + ?wid\<bar> \<and> \<bar>drag / ?s + ?wid\<bar> \<le> 10 powr k * \<bar>?higher\<bar>"
    have n: "?higher \<noteq> 0" and pos: "0 < ?higher" by (simp_all add: limits_def)
    from damp_bounds [OF n, of "drag / ?s + ?wid" k] a
    have d: "1 \<le> damp (drag / ?s + ?wid) ?higher" "damp (drag / ?s + ?wid) ?higher \<le> 1 + k"
      by simp_all
    have e: "fst (handleLimits h drag m) = (damp (drag / ?s + ?wid) ?higher * ?higher - ?wid) * ?s"
      using a assms(1) by (simp add: handleLimits_offset Let_def)
    have "1 * ?higher \<le> damp (drag / ?s + ?wid) ?higher * ?higher"
      using d(1) pos by (intro mult_right_mono) simp_all
    then have l: "(?higher - ?wid) * ?s \<le> (damp (drag / ?s + ?wid) ?higher * ?higher - ?wid) * ?s"
      using assms(2) by (intro mult_right_mono) simp_all
    have "damp (drag / ?s + ?wid) ?higher * ?higher \<le> (1 + k) * ?higher"
      using d(2) pos by (intro mult_right_mono) simp_all
    then have u: "(damp (drag / ?s + ?wid) ?higher * ?higher - ?wid) * ?s \<le> ((1 + k) * ?higher - ?wid) * ?s"
      using assms(2) by (intro mult_right_mono) simp_all
    from l u show "(?higher - ?wid) * ?s \<le> fst (handleLimits h drag m)
                     \<and> fst (handleLimits h drag m) \<le> ((1 + k) * ?higher - ?wid) * ?s"
      unfolding e by simp
  qed
  from lo hi show "let min' = (if h then worldX (camera m) else worldY (camera m));
               wid = (if h then projWidth (camera m) else projHeight (camera m));
               lower = (if h then limit_left limits else limit_top limits);
               higher = (if h then limit_right limits else limit_bottom limits);
               s = scale (camera m)
           in (min' \<le> lower \<and> \<bar>lower\<bar> \<le> \<bar>drag / s\<bar> \<and> \<bar>drag / s\<bar> \<le> 10 powr k * \<bar>lower\<bar>
                 \<longrightarrow> \<bar>fst (handleLimits h drag m)\<bar> \<le> (1 + k) * \<bar>lower\<bar> * s)
              \<and> (lower < min' \<and> higher \<le> min' + wid
                   \<and> \<bar>higher\<bar> \<le> \<bar>drag / s + wid\<bar> \<and> \<bar>drag / s + wid\<bar> \<le> 10 powr k * \<bar>higher\<bar>
                 \<longrightarrow> (higher - wid) * s \<le> fst (handleLimits h drag m)
                     \<and> fst (handleLimits h drag m) \<le> ((1 + k) * higher - wid) * s)"
    unfolding Let_def by blast
qed

theorem damping_logarithmic_witness:
  "1 \<le> damp (- 8000) (- 800) \<and> damp (- 8000) (- 800) \<le> 1 + 1
   \<and> \<bar>fst (handleLimits True (- 8000) panned_left)\<bar> \<le> (1 + 1) * \<bar>limit_left limits\<bar> * 1
   \<and> (2800 - 800) * 1 \<le> fst (handleLimits True 27200 panned_right)
   \<and> fst (handleLimits True 27200 panned_right) \<le> ((1 + 1) * 2800 - 800) * 1"
  using damping_logarithmic [of panned_left 1 True "- 8000"]
    damping_logarithmic [of panned_right 1 True 27200]
  by (simp add: panned_left_def panned_right_def constructed_def all_on_def scenario_camera_def
      limits_def worldX_def projWidth_def Let_def)

text \<open>
  The claim C4 as stated fails: no constant bounds the damped offset for every drag past
  a bound. With the right side of the view on the right limit 2800, the drag
  \<open>2800 * 10^|C| - 800\<close> gives the offset \<open>(1 + |C|) * 2800 - 800\<close>, which exceeds
  \<open>2800 * C\<close>.
\<close>

theorem damping_unbounded:
  "\<not> (\<exists>C. \<forall>drag.
        limit_right limits \<le> drag / scale (camera panned_right) + projWidth (camera panned_right)
        \<longrightarrow> fst (handleLimits True drag panned_right) \<le> limit_right limits * C)"
proof
  assume "\<exists>C. \<forall>drag.
        limit_right limits \<le> drag / scale (camera panned_right) + projWidth (camera panned_right)
        \<longrightarrow> fst (handleLimits True drag panned_right) \<le> limit_right limits * C"
  then obtain C where b: "\<forall>drag.
        limit_right limits \<le> drag / scale (camera panned_right) + projWidth (camera panned_right)
        \<longrightarrow> fst (handleLimits True drag panned_right) \<le> limit_right limits * C"
    by blast
  let ?d = "2800 * 10 powr \<bar>C\<bar> - 800 :: real"
  have p: "(1 :: real) \<le> 10 powr \<bar>C\<bar>"
    by (rule ge_one_powr_ge_zero) simp_all
  then have past: "limit_right limits \<le> ?d / scale (camera panned_right) + projWidth (camera panned_right)"
    by (simp add: panned_right_def constructed_def scenario_camera_def limits_def projWidth_def)
  have "fst (handleLimits True ?d panned_right) = damp (2800 * 10 powr \<bar>C\<bar>) 2800 * 2800 - 800"
    by (simp add: handleLimits_offset panned_right_def constructed_def all_on_def
        scenario_camera_def limits_def worldX_def projWidth_def Let_def)
  also have "damp (2800 * 10 powr \<bar>C\<bar>) 2800 = 1 + \<bar>C\<bar>"
    using damp_power_of_ten [of 2800 "\<bar>C\<bar>"] by simp
  finally have v: "fst (handleLimits True ?d panned_right) = (1 + \<bar>C\<bar>) * 2800 - 800" .
  from b past have "fst (handleLimits True ?d panned_right) \<le> limit_right limits * C"
    by blast
  with v show False
    by (simp add: limits_def)
qed

text \<open>
  Claim C8, as the code has it. A pointer-move in \<open>Panning\<close> with limits respected and
  rubber-banding disabled, for a camera of positive scale, tests the camera's world
  rectangle as it is before the move.
  If its origin is at or below the lower bound, the applied offset is the lower bound
  plus one; otherwise, if its far side is at or above the upper bound, the applied offset
  is the upper bound minus one; otherwise the raw drag is applied.
\<close>

theorem clamped_move:
  assumes "current m = Some Panning" and "respectLimits (diagram m)"
    and "\<not> rubberBanding (diagram m)" and "kinetics (panning m) = Some k"
    and "0 < scale (camera m)"
  shows "\<exists>m'. handleMouseMove K x y m = Inr m'
     \<and> cameraX (camera m') =
         (if worldX (camera m) \<le> limit_left limits then limit_left limits + 1
          else if limit_right limits \<le> worldX (camera m) + projWidth (camera m)
            then limit_right limits - 1
          else pressedX (panning m) - anchorX (panning m) - x)
     \<and> cameraY (camera m') =
         (if worldY (camera m) \<le> limit_top limits then limit_top limits + 1
          else if limit_bottom limits \<le> worldY (camera m) + projHeight (camera m)
            then limit_bottom limits - 1
          else pressedY (panning m) - anchorY (panning m) - y)"
proof -
  from Panning_handleMouseMove_result [OF assms(2) assms(4), of K x y]
  obtain m' where r: "Panning_handleMouseMove K x y m = Inr m'"
    and cx: "cameraX (camera m') = fst (handleLimits True (pressedX (panning m) - anchorX (panning m) - x) m)"
    and cy: "cameraY (camera m') = fst (handleLimits False (pressedY (panning m) - anchorY (panning m) - y) m)"
    by blast
  have h: "handleMouseMove K x y m = Inr m'"
    using assms(1) r by (simp add: handleMouseMove_def)
  from h cx cy assms(3) show ?thesis
    by (simp add: handleLimits_offset Let_def)
qed

theorem clamped_move_witness:
  "\<exists>m'. handleMouseMove sample_kinetics 7000 20
       (panned_left\<lparr>diagram := all_on\<lparr>rubberBanding := False\<rparr>\<rparr>) = Inr m'
     \<and> cameraX (camera m') = - 799 \<and> cameraY (camera m') = - 20"
  using clamped_move [of "panned_left\<lparr>diagram := all_on\<lparr>rubberBanding := False\<rparr>\<rparr>"
      "[(- 900, 0)]" sample_kinetics 7000 20]
  by (auto simp add: panned_left_def constructed_def all_on_def scenario_camera_def limits_def
      worldX_def worldY_def projWidth_def projHeight_def)

text \<open>
  The claim C8 as stated fails: a drag that starts inside the limits is applied unclamped.
  From the constructed machine with rubber-banding disabled, a press at the origin and a
  move of 5000 pixels to the right put the camera's world origin at \<open>- 5000\<close>, across the
  left limit \<open>- 800\<close>.
\<close>

theorem move_across_bound:
  "map_sum id (\<lambda>m. (cameraX (camera m), worldX (camera m) < limit_left limits))
     (run sample_kinetics [MouseDown 0 0, MouseMove 5000 0]
        (constructed (all_on\<lparr>rubberBanding := False\<rparr>) scenario_camera))
   = Inr (- 5000, True)"
  by (simp add: machine_defs)

end
